theory Spec2Isabelle
  imports Complex_Main "HOL-Library.Multiset"
begin

section \<open>Numbers\<close>

text \<open>
  The program is TypeScript; every quantity it computes with has type \<open>number\<close>.
  The embedding reads a finite \<open>number\<close> as a real, so \<open>+\<close>, \<open>*\<close>, \<open>/\<close> and
  \<open>Math.max\<close> are the exact operations on \<open>real\<close> and rounding is left out. The
  library functions \<open>Math.cos\<close> and \<open>Math.sin\<close> are parameters of the functions that
  call them. Where the source divides, the divisor is tracked: a
  division by zero gives \<open>Infinity\<close> or \<open>NaN\<close> in the program, which is no real,
  and \<open>js_div\<close> returns \<open>None\<close> for it.
\<close>

definition js_div :: "real \<Rightarrow> real \<Rightarrow> real option" where
  "js_div a b = (if b = 0 then None else Some (a / b))"

section \<open>Tax engine\<close>

datatype FilingStatus = single | married_joint | married_separate | head_household

text \<open>\<open>DEFAULTS\<close>: the filing status and the standard deduction the page passes in.\<close>

definition DEFAULTS_filingStatus :: FilingStatus where
  "DEFAULTS_filingStatus = single"

definition DEFAULTS_nyStandardDeduction :: real where
  "DEFAULTS_nyStandardDeduction = 8000"

definition clamp0 :: "real \<Rightarrow> real" where
  "clamp0 n = max 0 n"

text \<open>
  The rate schedule. The filing status is accepted and ignored (the source's
  \<open>if (filingStatus !== "single")\<close> has an empty body).
\<close>

definition computeNYCResidentTaxRateSchedule :: "real \<Rightarrow> FilingStatus \<Rightarrow> real" where
  "computeNYCResidentTaxRateSchedule nycTaxableIncome filingStatus =
     (let x = nycTaxableIncome in
      if x \<le> 12000 then 0.03078 * x
      else if x \<le> 25000 then 369 + 0.03762 * (x - 12000)
      else if x \<le> 50000 then 858 + 0.03819 * (x - 25000)
      else 1813 + 0.03876 * (x - 50000))"

record TaxParams =
  p_income :: real
  p_filingStatus :: FilingStatus
  p_nyStandardDeduction :: real

record TaxResult =
  nycTaxableIncome :: real
  nycTax :: real

definition computeNYCIncomeTax :: "TaxParams \<Rightarrow> TaxResult" where
  "computeNYCIncomeTax params =
     (let taxable = clamp0 (p_income params - p_nyStandardDeduction params);
          tax = computeNYCResidentTaxRateSchedule taxable (p_filingStatus params)
      in \<lparr>nycTaxableIncome = taxable, nycTax = tax\<rparr>)"

text \<open>
  The call the page makes: \<open>computeNYCIncomeTax({income, filingStatus:
  DEFAULTS.filingStatus, nyStandardDeduction: DEFAULTS.nyStandardDeduction})\<close>.
\<close>

definition pageTax :: "real \<Rightarrow> TaxResult" where
  "pageTax income =
     computeNYCIncomeTax \<lparr>p_income = income, p_filingStatus = DEFAULTS_filingStatus,
       p_nyStandardDeduction = DEFAULTS_nyStandardDeduction\<rparr>"

text \<open>
  The bracket of the schedule a taxable income falls in, numbered 0 to 3 in the order
  of the schedule's tests. It names the four segments in the statements below.
\<close>

definition bracketOf :: "real \<Rightarrow> nat" where
  "bracketOf x = (if x \<le> 12000 then 0 else if x \<le> 25000 then 1 else if x \<le> 50000 then 2 else 3)"

section \<open>Allocation tree\<close>

text \<open>
  A category and its children. The fields \<open>accent\<close> and \<open>sources\<close> of the source type
  only feed the rendering (colour, citation links) and are left out. \<open>children\<close> is
  optional in the source type, hence an option.
\<close>

record Subcat =
  sc_label :: string
  sc_weight :: real

record Category =
  c_id :: string
  c_label :: string
  c_weight :: real
  c_children :: "Subcat list option"

definition CATEGORIES :: "Category list" where
  "CATEGORIES = [
    \<lparr>c_id = ''education'', c_label = ''Education'', c_weight = 29.71,
      c_children = Some [
         \<lparr>sc_label = ''K-12 schools & instruction'', sc_weight = 16.6\<rparr>,
         \<lparr>sc_label = ''School operations'', sc_weight = 5.4\<rparr>,
         \<lparr>sc_label = ''Early childhood birth-to-five services'', sc_weight = 2.2\<rparr>,
         \<lparr>sc_label = ''Superintendents & field offices'', sc_weight = 0.347\<rparr>,
         \<lparr>sc_label = ''Central administrative offices'', sc_weight = 0.176\<rparr>,
         \<lparr>sc_label = ''Employee benefits & pension'', sc_weight = 8.5\<rparr>,
         \<lparr>sc_label = ''Debt payments'', sc_weight = 3.8\<rparr>,
         \<lparr>sc_label = ''State-mandated payments to charter schools'', sc_weight = 3.4\<rparr>,
         \<lparr>sc_label = ''Non-public & contract schools (special education)'', sc_weight = 2.3\<rparr>]\<rparr>,
    \<lparr>c_id = ''human_services'', c_label = ''Human Services'', c_weight = 16.37,
      c_children = Some [
         \<lparr>sc_label = ''Department of Social Services'', sc_weight = 10.17\<rparr>,
         \<lparr>sc_label = ''Department of Homeless Services'', sc_weight = 3.02\<rparr>,
         \<lparr>sc_label = ''Administration for Children's Services'', sc_weight = 2.67\<rparr>,
         \<lparr>sc_label = ''Department for the Aging'', sc_weight = 0.51\<rparr>]\<rparr>,
    \<lparr>c_id = ''miscellaneous'', c_label = ''Miscellaneous'', c_weight = 13.18,
      c_children = Some [
         \<lparr>sc_label = ''Personal service'', sc_weight = 10060.656\<rparr>,
         \<lparr>sc_label = ''Other than personal service'', sc_weight = 4268.15\<rparr>]\<rparr>,
    \<lparr>c_id = ''public_safety'', c_label = ''Public Safety & Judicial'', c_weight = 10.11,
      c_children = Some [
         \<lparr>sc_label = ''Police Department (NYPD)'', sc_weight = 5.33\<rparr>,
         \<lparr>sc_label = ''Fire Department (FDNY)'', sc_weight = 2.23\<rparr>,
         \<lparr>sc_label = ''Department of Correction'', sc_weight = 1.03\<rparr>,
         \<lparr>sc_label = ''Office of Criminal Justice'', sc_weight = 0.74\<rparr>,
         \<lparr>sc_label = ''District Attorneys'', sc_weight = 0.51\<rparr>,
         \<lparr>sc_label = ''Department of Probation'', sc_weight = 0.1\<rparr>,
         \<lparr>sc_label = ''Emergency Management'', sc_weight = 0.07\<rparr>,
         \<lparr>sc_label = ''Taxi & Limousine Commission'', sc_weight = 0.05\<rparr>,
         \<lparr>sc_label = ''Special Narcotics Prosecutor'', sc_weight = 0.03\<rparr>,
         \<lparr>sc_label = ''Civilian Complaint Review Board'', sc_weight = 0.02\<rparr>]\<rparr>,
    \<lparr>c_id = ''pensions'', c_label = ''City Employee Pensions'', c_weight = 8.9,
      c_children = Some [
         \<lparr>sc_label = ''Salary and wages'', sc_weight = 10233.669\<rparr>,
         \<lparr>sc_label = ''Other fringe benefits'', sc_weight = 40.257\<rparr>,
         \<lparr>sc_label = ''Other than personal service'', sc_weight = 2.157\<rparr>]\<rparr>,
    \<lparr>c_id = ''general_government'', c_label = ''General Government'', c_weight = 5.48,
      c_children = Some [
         \<lparr>sc_label = ''Department of Citywide Administrative Services'', sc_weight = 1.51\<rparr>,
         \<lparr>sc_label = ''Department of Youth and Community Development'', sc_weight = 1.29\<rparr>,
         \<lparr>sc_label = ''Department of Information Technology & Telecommunications'', sc_weight = 0.69\<rparr>,
         \<lparr>sc_label = ''Department of Finance'', sc_weight = 0.32\<rparr>,
         \<lparr>sc_label = ''Department of Small Business Services'', sc_weight = 0.24\<rparr>,
         \<lparr>sc_label = ''Law Department'', sc_weight = 0.24\<rparr>,
         \<lparr>sc_label = ''Mayoralty'', sc_weight = 0.17\<rparr>,
         \<lparr>sc_label = ''Department of Design and Construction'', sc_weight = 0.14\<rparr>,
         \<lparr>sc_label = ''Board of Elections'', sc_weight = 0.12\<rparr>,
         \<lparr>sc_label = ''Office of the Comptroller'', sc_weight = 0.11\<rparr>,
         \<lparr>sc_label = ''Financial Information Services Agency'', sc_weight = 0.1\<rparr>,
         \<lparr>sc_label = ''City Council'', sc_weight = 0.1\<rparr>,
         \<lparr>sc_label = ''Campaign Finance Board'', sc_weight = 0.09\<rparr>,
         \<lparr>sc_label = ''Office of Administrative Trials and Hearings'', sc_weight = 0.07\<rparr>,
         \<lparr>sc_label = ''Department of Consumer Affairs'', sc_weight = 0.06\<rparr>,
         \<lparr>sc_label = ''Department of City Planning'', sc_weight = 0.05\<rparr>,
         \<lparr>sc_label = ''Department of Investigation'', sc_weight = 0.05\<rparr>,
         \<lparr>sc_label = ''Other administrative agencies'', sc_weight = 0.1\<rparr>,
         \<lparr>sc_label = ''Borough Presidents'', sc_weight = 0.03\<rparr>,
         \<lparr>sc_label = ''Community Boards'', sc_weight = 0.02\<rparr>]\<rparr>,
    \<lparr>c_id = ''debt_service'', c_label = ''Debt Service'', c_weight = 4.14,
      c_children = Some [
         \<lparr>sc_label = ''City funds'', sc_weight = 4766.171\<rparr>,
         \<lparr>sc_label = ''Federal - other'', sc_weight = 102.386\<rparr>,
         \<lparr>sc_label = ''State'', sc_weight = 4.657\<rparr>,
         \<lparr>sc_label = ''Other categorical'', sc_weight = 1.241\<rparr>]\<rparr>,
    \<lparr>c_id = ''health'', c_label = ''Health'', c_weight = 3.49,
      c_children = Some [
         \<lparr>sc_label = ''Dept. of Health & Mental Hygiene'', sc_weight = 2.07\<rparr>,
         \<lparr>sc_label = ''NYC Health + Hospitals'', sc_weight = 1.42\<rparr>]\<rparr>,
    \<lparr>c_id = ''environmental'', c_label = ''Environmental Protection'', c_weight = 3.18,
      c_children = Some [
         \<lparr>sc_label = ''Department of Environmental Protection'', sc_weight = 2.95\<rparr>,
         \<lparr>sc_label = ''Department of Sanitation'', sc_weight = 0.23\<rparr>]\<rparr>,
    \<lparr>c_id = ''housing'', c_label = ''Housing'', c_weight = 1.56,
      c_children = Some [
         \<lparr>sc_label = ''New York City Housing Authority'', sc_weight = 0.92\<rparr>,
         \<lparr>sc_label = ''Department of Housing Preservation and Development'', sc_weight = 0.64\<rparr>]\<rparr>,
    \<lparr>c_id = ''cuny'', c_label = ''CUNY Community Colleges'', c_weight = 1.32,
      c_children = Some [
         \<lparr>sc_label = ''CUNY Community Colleges'', sc_weight = 1.22\<rparr>,
         \<lparr>sc_label = ''CUNY Construction Fund'', sc_weight = 0.1\<rparr>]\<rparr>,
    \<lparr>c_id = ''transportation'', c_label = ''Transportation Services'', c_weight = 1.28,
      c_children = Some [
         \<lparr>sc_label = ''Department of Transportation'', sc_weight = 0.93\<rparr>,
         \<lparr>sc_label = ''Department of Records and Information Services'', sc_weight = 0.35\<rparr>]\<rparr>,
    \<lparr>c_id = ''parks_cultural'', c_label = ''Parks, Recreation & Cultural Affairs'', c_weight = 0.84,
      c_children = Some [
         \<lparr>sc_label = ''Department of Parks and Recreation'', sc_weight = 0.48\<rparr>,
         \<lparr>sc_label = ''Department of Cultural Affairs'', sc_weight = 0.36\<rparr>]\<rparr>,
    \<lparr>c_id = ''libraries'', c_label = ''Libraries'', c_weight = 0.44,
      c_children = Some [
         \<lparr>sc_label = ''New York Public Library'', sc_weight = 190.598\<rparr>,
         \<lparr>sc_label = ''Queens Public Library'', sc_weight = 149.9\<rparr>,
         \<lparr>sc_label = ''Brooklyn Public Library'', sc_weight = 144.775\<rparr>,
         \<lparr>sc_label = ''NYPL - Research Libraries'', sc_weight = 37.867\<rparr>]\<rparr>
  ]"

text \<open>
  \<open>normalizeWeights\<close> is generic in the item type (\<open>T extends {weight: number}\<close>); the
  model takes the \<open>weight\<close> accessor as its first argument. The object
  \<open>{...it, norm}\<close> is the record of the item and its norm. \<open>sum ? a : b\<close> takes the
  second branch exactly when \<open>sum\<close> is 0.
\<close>

record 'a Normed =
  n_item :: 'a
  n_norm :: real

definition normalizeWeights :: "('a \<Rightarrow> real) \<Rightarrow> 'a list \<Rightarrow> real \<times> 'a Normed list" where
  "normalizeWeights weight items =
     (let sum = foldl (\<lambda>a b. a + weight b) 0 items
      in (sum, map (\<lambda>it. \<lparr>n_item = it, n_norm = (if sum \<noteq> 0 then weight it / sum else 0)\<rparr>) items))"

text \<open>
  The same function with its division made partial by \<open>js_div\<close>: a norm of \<open>None\<close>
  stands for an \<open>Infinity\<close> or \<open>NaN\<close> produced by dividing by zero.
\<close>

definition normalizeWeights_checked ::
    "('a \<Rightarrow> real) \<Rightarrow> 'a list \<Rightarrow> real \<times> ('a \<times> real option) list" where
  "normalizeWeights_checked weight items =
     (let sum = foldl (\<lambda>a b. a + weight b) 0 items
      in (sum, map (\<lambda>it. (it, if sum \<noteq> 0 then js_div (weight it) sum else Some 0)) items))"

text \<open>
  The derived values of \<open>Page\<close>. \<open>{...c, dollars}\<close> is the record of the item, its
  norm and its dollars.
\<close>

record 'a Alloc =
  a_item :: 'a
  a_norm :: real
  dollars :: real

definition categoryAlloc :: "real \<Rightarrow> Category Alloc list" where
  "categoryAlloc tax =
     (let items = snd (normalizeWeights c_weight CATEGORIES)
      in map (\<lambda>c. \<lparr>a_item = n_item c, a_norm = n_norm c, dollars = tax * n_norm c\<rparr>) items)"

text \<open>\<open>categoryAlloc.find((c) => c.id === selectedCategoryId) ?? null\<close>\<close>

definition selectedCategory :: "real \<Rightarrow> string option \<Rightarrow> Category Alloc option" where
  "selectedCategory tax selectedCategoryId =
     find (\<lambda>c. Some (c_id (a_item c)) = selectedCategoryId) (categoryAlloc tax)"

text \<open>
  \<open>selectedSubcats\<close> is \<open>null\<close> when no category is selected, or the selected one has
  no children or an empty list of them (\<open>!selectedCategory?.children?.length\<close>).
\<close>

definition selectedSubcats :: "Category Alloc option \<Rightarrow> Subcat Alloc list option" where
  "selectedSubcats sel =
     (case sel of
        None \<Rightarrow> None
      | Some c \<Rightarrow>
          (case c_children (a_item c) of
             None \<Rightarrow> None
           | Some children \<Rightarrow>
               if length children = 0 then None
               else
                 let items = snd (normalizeWeights sc_weight children)
                 in Some (map (\<lambda>sc. \<lparr>a_item = n_item sc, a_norm = n_norm sc,
                                       dollars = dollars c * n_norm sc\<rparr>) items)))"

text \<open>
  \<open>selectedSubcategory\<close>: \<open>null\<close> when the selected label is \<open>null\<close> or the empty
  string, or there are no subcategories; otherwise the first subcategory with that
  label, or \<open>null\<close> when there is none.
\<close>

definition selectedSubcategory ::
    "Subcat Alloc list option \<Rightarrow> string option \<Rightarrow> Subcat Alloc option" where
  "selectedSubcategory subcats selectedSubcategoryLabel =
     (case selectedSubcategoryLabel of
        None \<Rightarrow> None
      | Some lbl \<Rightarrow>
          if lbl = [] then None
          else (case subcats of
                  None \<Rightarrow> None
                | Some scs \<Rightarrow>
                    if length scs = 0 then None
                    else find (\<lambda>sc. sc_label (a_item sc) = lbl) scs))"

section \<open>Radial layout\<close>

text \<open>A ring item; its \<open>onClick\<close> callback is an event hook and is left out.\<close>

record RingItem =
  ri_label :: string
  ri_value :: real
  ri_color :: "string option"

definition RING_PADDING :: real where
  "RING_PADDING = 10"

record DonutSlice =
  ds_label :: string
  ds_value :: real
  pct :: real
  ds_color :: "string option"
  midX :: real
  midY :: real
  isRight :: bool

text \<open>
  The constants local to one call of the closure of \<open>items.map\<close> in
  \<open>computeDonutSlices\<close>. The slice object the closure returns holds none of the angles,
  so the walk below keeps them beside each slice.
\<close>

record SliceLocals =
  l_value :: real
  l_angle :: real
  l_start :: real
  l_midAngle :: real
  l_radians :: real

text \<open>
  The closure reads and updates the variable \<open>acc\<close> of the enclosing call; the walk
  threads it through the list, in input order. \<open>Math.cos\<close> and \<open>Math.sin\<close> belong to
  the platform, not to the program: they are taken as the parameters \<open>Math_cos\<close> and
  \<open>Math_sin\<close>, so the model fixes no value and no sign for them at any angle.
\<close>

fun sliceWalk ::
    "(real \<Rightarrow> real) \<Rightarrow> (real \<Rightarrow> real) \<Rightarrow> real \<Rightarrow> real \<Rightarrow> real \<Rightarrow> real \<Rightarrow> real \<Rightarrow> real
       \<Rightarrow> RingItem list \<Rightarrow> (SliceLocals \<times> DonutSlice) list" where
  "sliceWalk Math_cos Math_sin total_v cx cy ringMid startAngle acc [] = []"
| "sliceWalk Math_cos Math_sin total_v cx cy ringMid startAngle acc (it # its) =
     (let value = max 0 (ri_value it);
          angle = (value / total_v) * 360;
          start = startAngle + acc;
          midAngle = start + angle / 2;
          acc' = acc + angle;
          radians = (pi / 180) * midAngle
      in (\<lparr>l_value = value, l_angle = angle, l_start = start, l_midAngle = midAngle,
            l_radians = radians\<rparr>,
          \<lparr>ds_label = ri_label it, ds_value = ri_value it, pct = (value / total_v) * 100,
            ds_color = ri_color it,
            midX = cx + ringMid * Math_cos radians,
            midY = cy + ringMid * Math_sin radians,
            isRight = (Math_cos radians \<ge> 0)\<rparr>)
         # sliceWalk Math_cos Math_sin total_v cx cy ringMid startAngle acc' its)"

text \<open>
  \<open>total_v\<close> is the source's \<open>total\<close> and \<open>sz\<close> its \<open>size\<close>. \<open>startAngle\<close> is a
  parameter with the default \<open>-90\<close>: \<open>None\<close> is a call that leaves it out, as
  \<open>RingWithLabelRails\<close> does.
\<close>

definition donutTrace ::
    "(real \<Rightarrow> real) \<Rightarrow> (real \<Rightarrow> real) \<Rightarrow> RingItem list \<Rightarrow> real \<Rightarrow> real \<Rightarrow> real option
       \<Rightarrow> (SliceLocals \<times> DonutSlice) list" where
  "donutTrace Math_cos Math_sin items sz thickness startAngle =
     (let sa = (case startAngle of None \<Rightarrow> - 90 | Some a \<Rightarrow> a);
          total_v = max 1 (foldl (\<lambda>a b. a + max 0 (ri_value b)) 0 items);
          cx = sz / 2;
          cy = sz / 2;
          ringOuter = sz / 2 - RING_PADDING;
          ringMid = ringOuter - thickness / 2
      in sliceWalk Math_cos Math_sin total_v cx cy ringMid sa 0 items)"

definition computeDonutSlices ::
    "(real \<Rightarrow> real) \<Rightarrow> (real \<Rightarrow> real) \<Rightarrow> RingItem list \<Rightarrow> real \<Rightarrow> real \<Rightarrow> real option
       \<Rightarrow> DonutSlice list" where
  "computeDonutSlices Math_cos Math_sin items sz thickness startAngle =
     map snd (donutTrace Math_cos Math_sin items sz thickness startAngle)"

text \<open>The sweep angles of a ring, one for each item, in input order.\<close>

definition sweepAngles ::
    "(real \<Rightarrow> real) \<Rightarrow> (real \<Rightarrow> real) \<Rightarrow> RingItem list \<Rightarrow> real \<Rightarrow> real \<Rightarrow> real option
       \<Rightarrow> real list" where
  "sweepAngles Math_cos Math_sin items sz thickness startAngle =
     map (l_angle \<circ> fst) (donutTrace Math_cos Math_sin items sz thickness startAngle)"

text \<open>
  For the statements: the sum \<open>S\<close> of the values of a ring, and the sweep one item
  gets when the ring's total is \<open>T\<close>.
\<close>

definition valueSum :: "RingItem list \<Rightarrow> real" where
  "valueSum items = sum_list (map ri_value items)"

definition sweepOf :: "real \<Rightarrow> RingItem \<Rightarrow> real" where
  "sweepOf T it = (max 0 (ri_value it) / T) * 360"

section \<open>Label rails\<close>



text \<open>
  Phase 2. An element is known by the rectangle \<open>getBoundingClientRect\<close> returns for
  it; a ref that is \<open>null\<close>, and a label with no entry in \<open>labelRefs.current\<close>, is
  \<open>None\<close>.
\<close>

record DOMRect =
  r_left :: real
  r_top :: real
  r_right :: real
  r_width :: real
  r_height :: real

record ConnectorLine =
  ln_label :: string
  x1 :: real
  y1 :: real
  x2 :: real
  y2 :: real
  isLeft :: bool
  ln_color :: "string option"

text \<open>
  \<open>measureLines\<close> ends in \<open>setLines(next)\<close>; the model returns the new value of the
  state \<open>lines\<close>. When the container or the donut element is missing it returns early
  and \<open>lines\<close> keeps its value.
\<close>

definition measureLines ::
    "DOMRect option \<Rightarrow> DOMRect option \<Rightarrow> (string \<rightharpoonup> DOMRect) \<Rightarrow> DonutSlice list
       \<Rightarrow> ConnectorLine list \<Rightarrow> ConnectorLine list" where
  "measureLines containerEl donutEl labelRefs slices lines =
     (case containerEl of
        None \<Rightarrow> lines
      | Some containerRect \<Rightarrow>
     (case donutEl of
        None \<Rightarrow> lines
      | Some donutRect \<Rightarrow>
          map the (filter (\<lambda>line. line \<noteq> None)
            (map (\<lambda>slice.
               (case labelRefs (ds_label slice) of
                  None \<Rightarrow> None
                | Some labelRect \<Rightarrow>
                    let isLeft = (r_left labelRect < r_left containerRect + r_width containerRect / 2);
                        x1 = (if isLeft then r_right labelRect - r_left containerRect
                              else r_left labelRect - r_left containerRect);
                        y1 = r_top labelRect - r_top containerRect + r_height labelRect / 2;
                        x2 = r_left donutRect - r_left containerRect + midX slice;
                        y2 = r_top donutRect - r_top containerRect + midY slice
                    in Some \<lparr>ln_label = ds_label slice, x1 = x1, y1 = y1, x2 = x2, y2 = y2,
                              isLeft = isLeft, ln_color = ds_color slice\<rparr>))
             slices))))"

section \<open>Drill state\<close>

text \<open>The state of \<open>Page\<close>: its five \<open>useState\<close> cells, with their initial values.\<close>

record PageState =
  income :: real
  unlockedLevel :: nat
  selectedCategoryId :: "string option"
  selectedSubcategoryLabel :: "string option"
  showMethodology :: bool

definition initialState :: PageState where
  "initialState = \<lparr>income = 0, unlockedLevel = 0, selectedCategoryId = None,
     selectedSubcategoryLabel = None, showMethodology = False\<rparr>"

text \<open>
  The income field: \<open>Number(e.target.value.replace(/[^\d]/g, "")) || 0\<close> keeps the
  decimal digits of the text and reads them as a number; no digit at all gives 0. The
  model reads the digits exactly, whatever their count.
\<close>

definition isDigit :: "char \<Rightarrow> bool" where
  "isDigit c = (c \<in> set ''0123456789'')"

definition digitValue :: "char \<Rightarrow> nat" where
  "digitValue c = of_char c - 48"

definition parseIncome :: "string \<Rightarrow> real" where
  "parseIncome text = real (foldl (\<lambda>n c. 10 * n + digitValue c) 0 (filter isDigit text))"

definition unlockTo :: "nat \<Rightarrow> PageState \<Rightarrow> PageState" where
  "unlockTo lvl s = s\<lparr>unlockedLevel := max (unlockedLevel s) lvl\<rparr>"

text \<open>What the page derives from its state on each render.\<close>

definition hasIncome :: "PageState \<Rightarrow> bool" where
  "hasIncome s = (income s > 0)"

definition stateTax :: "PageState \<Rightarrow> real" where
  "stateTax s = nycTax (pageTax (income s))"

definition stateSelectedCategory :: "PageState \<Rightarrow> Category Alloc option" where
  "stateSelectedCategory s = selectedCategory (stateTax s) (selectedCategoryId s)"

definition stateSelectedSubcats :: "PageState \<Rightarrow> Subcat Alloc list option" where
  "stateSelectedSubcats s = selectedSubcats (stateSelectedCategory s)"

definition stateSelectedSubcategory :: "PageState \<Rightarrow> Subcat Alloc option" where
  "stateSelectedSubcategory s =
     selectedSubcategory (stateSelectedSubcats s) (selectedSubcategoryLabel s)"

text \<open>
  The items the page hands to the two rings: label, dollars, and a colour picked by
  position.
\<close>

definition donutColors :: "string list" where
  "donutColors = [''#1f1f1f'', ''#4aa7d8'', ''#e36a2e'', ''#6c7a89'', ''#9c7a3f'',
     ''#4a6b60'', ''#b8695b'', ''#7a6f9f'', ''#9bb3a6'', ''#b5a27f'', ''#546b9a'',
     ''#a96f86'', ''#6f8aa1'', ''#9f8f7a'']"

definition categoryDonutItems :: "Category Alloc list \<Rightarrow> RingItem list" where
  "categoryDonutItems alloc =
     map (\<lambda>(i, c). \<lparr>ri_label = c_label (a_item c), ri_value = dollars c,
                      ri_color = Some (donutColors ! (i mod length donutColors))\<rparr>)
       (enumerate 0 alloc)"

definition subcatDonutItems :: "Subcat Alloc list option \<Rightarrow> RingItem list" where
  "subcatDonutItems subcats =
     map (\<lambda>(i, sc). \<lparr>ri_label = sc_label (a_item sc), ri_value = dollars sc,
                       ri_color = Some (donutColors ! (i mod length donutColors))\<rparr>)
       (enumerate 0 (case subcats of None \<Rightarrow> [] | Some scs \<Rightarrow> scs))"

text \<open>
  The two rings are rendered under these conditions of the JSX; a ring that is not
  rendered cannot be clicked.
\<close>

definition categoryRingShown :: "PageState \<Rightarrow> bool" where
  "categoryRingShown s =
     (\<not> unlockedLevel s = 0 \<and> hasIncome s \<and> unlockedLevel s \<ge> 1 \<and> unlockedLevel s < 3)"

definition subcatRingShown :: "PageState \<Rightarrow> bool" where
  "subcatRingShown s =
     (\<not> unlockedLevel s = 0 \<and> hasIncome s \<and> unlockedLevel s \<ge> 3
      \<and> stateSelectedCategory s \<noteq> None)"

text \<open>
  The user actions: the four breadcrumb buttons, a click on the income card, an edit of
  the income field, a click on an item (slice or rail label) of the category ring or of
  the subcategory ring, and the two methodology buttons.
\<close>

datatype Action =
    ClickCrumbIncome
  | ClickCrumbTax
  | ClickCrumbAllocation
  | ClickCrumbDrilldown
  | ClickIncomeCard
  | ChangeIncome string
  | ClickCategoryItem string
  | ClickSubcategoryItem string
  | OpenMethodology
  | CloseMethodology

fun handle :: "PageState \<Rightarrow> Action \<Rightarrow> PageState" where
  "handle s ClickCrumbIncome =
     s\<lparr>unlockedLevel := 0, selectedCategoryId := None, selectedSubcategoryLabel := None\<rparr>"
| "handle s ClickCrumbTax =
     (if unlockedLevel s \<ge> 1
      then s\<lparr>unlockedLevel := 1, selectedCategoryId := None, selectedSubcategoryLabel := None\<rparr>
      else s)"
| "handle s ClickCrumbAllocation =
     (if unlockedLevel s \<ge> 2
      then s\<lparr>unlockedLevel := 2, selectedCategoryId := None, selectedSubcategoryLabel := None\<rparr>
      else s)"
| "handle s ClickCrumbDrilldown =
     (if unlockedLevel s \<ge> 3 then s\<lparr>unlockedLevel := 3\<rparr> else s)"
| "handle s ClickIncomeCard = unlockTo 2 s"
| "handle s (ChangeIncome text) = s\<lparr>income := parseIncome text\<rparr>"
| "handle s (ClickCategoryItem label) =
     (if categoryRingShown s
      then (case find (\<lambda>x. c_label (a_item x) = label) (categoryAlloc (stateTax s)) of
              None \<Rightarrow> s
            | Some match \<Rightarrow>
                unlockTo 3 (s\<lparr>selectedCategoryId := Some (c_id (a_item match)),
                              selectedSubcategoryLabel := None\<rparr>))
      else s)"
| "handle s (ClickSubcategoryItem label) =
     (if subcatRingShown s then s\<lparr>selectedSubcategoryLabel := Some label\<rparr> else s)"
| "handle s OpenMethodology = s\<lparr>showMethodology := True\<rparr>"
| "handle s CloseMethodology = s\<lparr>showMethodology := False\<rparr>"

text \<open>
  The effect \<open>useEffect(() => setSelectedSubcategoryLabel(null), [selectedCategoryId])\<close>
  runs after a render in which \<open>selectedCategoryId\<close> has changed.
\<close>

definition categoryEffect :: "PageState \<Rightarrow> PageState \<Rightarrow> PageState" where
  "categoryEffect before after =
     (if selectedCategoryId after \<noteq> selectedCategoryId before
      then after\<lparr>selectedSubcategoryLabel := None\<rparr> else after)"

definition step :: "PageState \<Rightarrow> Action \<Rightarrow> PageState" where
  "step s a = categoryEffect s (handle s a)"

definition run :: "Action list \<Rightarrow> PageState" where
  "run actions = foldl step initialState actions"

section \<open>Tax engine: results\<close>

lemma schedule_nonneg:
  "0 \<le> x \<Longrightarrow> 0 \<le> computeNYCResidentTaxRateSchedule x fs"
  by (simp add: computeNYCResidentTaxRateSchedule_def Let_def)

lemma pageTax_unfold:
  "nycTax (pageTax i) = computeNYCResidentTaxRateSchedule (max 0 (i - 8000)) single"
  "nycTaxableIncome (pageTax i) = max 0 (i - 8000)"
  by (simp_all add: pageTax_def computeNYCIncomeTax_def clamp0_def Let_def
      DEFAULTS_filingStatus_def DEFAULTS_nyStandardDeduction_def)

text \<open>
  Claim C5. For every real income, negative ones included, \<open>computeNYCIncomeTax\<close>
  evaluates the schedule at the taxable income \<open>max 0 (income - deduction)\<close>; with the
  deduction of 8000 the tax is 0 whenever the income is at most the deduction. The
  function has no failing branch: it is total and returns a result for every input.
\<close>

theorem C5_taxable_income_clamped:
  "nycTaxableIncome (computeNYCIncomeTax \<lparr>p_income = i, p_filingStatus = fs,
       p_nyStandardDeduction = d\<rparr>) = max 0 (i - d)
   \<and> nycTax (computeNYCIncomeTax \<lparr>p_income = i, p_filingStatus = fs,
       p_nyStandardDeduction = d\<rparr>)
       = computeNYCResidentTaxRateSchedule (max 0 (i - d)) fs
   \<and> DEFAULTS_nyStandardDeduction = 8000
   \<and> nycTaxableIncome (pageTax i) = max 0 (i - 8000)
   \<and> (i \<le> 8000 \<longrightarrow> nycTax (pageTax i) = 0)
   \<and> (i \<le> d \<longrightarrow> nycTax (computeNYCIncomeTax \<lparr>p_income = i, p_filingStatus = fs,
       p_nyStandardDeduction = d\<rparr>) = 0)"
  by (simp add: pageTax_def computeNYCIncomeTax_def clamp0_def Let_def
      computeNYCResidentTaxRateSchedule_def DEFAULTS_filingStatus_def
      DEFAULTS_nyStandardDeduction_def)

theorem C5_taxable_income_clamped_witness:
  "(-5 :: real) \<le> 8000 \<and> nycTax (pageTax (-5)) = 0 \<and> nycTaxableIncome (pageTax (-5)) = 0"
  using C5_taxable_income_clamped [of "-5" single 8000]
  by (simp add: pageTax_def DEFAULTS_filingStatus_def DEFAULTS_nyStandardDeduction_def)

text \<open>
  Claim C10. For every real income (and every deduction and filing status), the tax
  returned by \<open>computeNYCIncomeTax\<close> and the taxable income it reports are both
  non-negative.
\<close>

theorem C10_tax_and_taxable_nonneg:
  "0 \<le> nycTax (computeNYCIncomeTax params) \<and> 0 \<le> nycTaxableIncome (computeNYCIncomeTax params)"
  by (simp add: computeNYCIncomeTax_def clamp0_def Let_def schedule_nonneg)

section \<open>Tax engine: shape of the tax function\<close>

text \<open>The tax as a function of income, bracket by bracket (income = taxable income + 8000).\<close>

lemma pageTax_low:
  "i \<le> 20000 \<Longrightarrow> nycTax (pageTax i) = 0.03078 * max 0 (i - 8000)"
  by (simp add: pageTax_unfold computeNYCResidentTaxRateSchedule_def Let_def max_def)

lemma pageTax_segments:
  "20000 < i \<Longrightarrow> i \<le> 33000 \<Longrightarrow> nycTax (pageTax i) = 369 + 0.03762 * (i - 20000)"
  "33000 < i \<Longrightarrow> i \<le> 58000 \<Longrightarrow> nycTax (pageTax i) = 858 + 0.03819 * (i - 33000)"
  "58000 < i \<Longrightarrow> nycTax (pageTax i) = 1813 + 0.03876 * (i - 58000)"
  by (simp_all add: pageTax_unfold computeNYCResidentTaxRateSchedule_def Let_def max_def)

lemma pageTax_cont_bracket0: "continuous_on {..20000} (\<lambda>i. nycTax (pageTax i))"
proof -
  have "continuous_on {..20000} (\<lambda>i. nycTax (pageTax i))
        \<longleftrightarrow> continuous_on {..20000} (\<lambda>i::real. 0.03078 * max 0 (i - 8000))"
    by (rule continuous_on_cong) (simp_all only: pageTax_low atMost_iff)
  moreover have "continuous_on {..20000} (\<lambda>i::real. 0.03078 * max 0 (i - 8000))"
    by (intro continuous_intros)
  ultimately show ?thesis by blast
qed

lemma pageTax_cont_bracket1: "continuous_on {20000<..33000} (\<lambda>i. nycTax (pageTax i))"
proof -
  have "continuous_on {20000<..33000} (\<lambda>i. nycTax (pageTax i))
        \<longleftrightarrow> continuous_on {20000<..33000} (\<lambda>i::real. 369 + 0.03762 * (i - 20000))"
    by (rule continuous_on_cong) (simp_all only: pageTax_segments greaterThanAtMost_iff)
  moreover have "continuous_on {20000<..33000} (\<lambda>i::real. 369 + 0.03762 * (i - 20000))"
    by (intro continuous_intros)
  ultimately show ?thesis by blast
qed

lemma pageTax_cont_bracket2: "continuous_on {33000<..58000} (\<lambda>i. nycTax (pageTax i))"
proof -
  have "continuous_on {33000<..58000} (\<lambda>i. nycTax (pageTax i))
        \<longleftrightarrow> continuous_on {33000<..58000} (\<lambda>i::real. 858 + 0.03819 * (i - 33000))"
    by (rule continuous_on_cong) (simp_all only: pageTax_segments greaterThanAtMost_iff)
  moreover have "continuous_on {33000<..58000} (\<lambda>i::real. 858 + 0.03819 * (i - 33000))"
    by (intro continuous_intros)
  ultimately show ?thesis by blast
qed

lemma pageTax_cont_bracket3: "continuous_on {58000<..} (\<lambda>i. nycTax (pageTax i))"
proof -
  have "continuous_on {58000<..} (\<lambda>i. nycTax (pageTax i))
        \<longleftrightarrow> continuous_on {58000<..} (\<lambda>i::real. 1813 + 0.03876 * (i - 58000))"
    by (rule continuous_on_cong) (simp_all only: pageTax_segments greaterThan_iff)
  moreover have "continuous_on {58000<..} (\<lambda>i::real. 1813 + 0.03876 * (i - 58000))"
    by (intro continuous_intros)
  ultimately show ?thesis by blast
qed

lemma schedule_mono_in_bracket:
  "x \<le> y \<Longrightarrow> bracketOf x = bracketOf y \<Longrightarrow>
     computeNYCResidentTaxRateSchedule x fs \<le> computeNYCResidentTaxRateSchedule y fs"
  unfolding computeNYCResidentTaxRateSchedule_def Let_def bracketOf_def
  by (simp split: if_splits)

lemma schedule_near_mono:
  "x \<le> y \<Longrightarrow>
     computeNYCResidentTaxRateSchedule x fs \<le> computeNYCResidentTaxRateSchedule y fs + 0.36"
  unfolding computeNYCResidentTaxRateSchedule_def Let_def
  by (auto simp add: field_simps)

lemma pageTax_jump_at_20000: "\<not> isCont (\<lambda>i. nycTax (pageTax i)) 20000"
proof
  assume "isCont (\<lambda>i. nycTax (pageTax i)) 20000"
  then have "(\<lambda>i. nycTax (pageTax i)) \<midarrow>20000\<rightarrow> nycTax (pageTax 20000)"
    by (simp add: isCont_def)
  from LIM_D [OF this, of "1/10"]
  obtain d where d: "d > 0"
    and near: "\<And>j. j \<noteq> 20000 \<Longrightarrow> \<bar>j - 20000\<bar> < d \<Longrightarrow>
                 \<bar>nycTax (pageTax j) - nycTax (pageTax 20000)\<bar> < 1/10"
    by auto
  define j where "j = 20000 + min (d / 2) 1"
  have r: "20000 < j" "j \<le> 20001" "\<bar>j - 20000\<bar> < d"
    using d by (simp_all add: j_def min_def)
  have "nycTax (pageTax j) = 369 + 0.03762 * (j - 20000)"
    using r by (simp add: pageTax_segments)
  moreover have "nycTax (pageTax 20000) = 369.36"
    by (simp add: pageTax_low)
  ultimately have "\<bar>nycTax (pageTax j) - nycTax (pageTax 20000)\<bar> \<ge> 1/10"
    using r by (simp add: field_simps)
  moreover have "\<bar>nycTax (pageTax j) - nycTax (pageTax 20000)\<bar> < 1/10"
    using near [of j] r by simp
  ultimately show False by simp
qed

text \<open>
  Claim C1, as the code has it. The schedule has exactly four linear segments, with
  breakpoints at taxable incomes 12000, 25000 and 50000 (incomes 20000, 33000 and 58000
  after the deduction of 8000). Composed with the deduction clamp, the tax is continuous
  on each segment and non-decreasing within each segment. It is not continuous across
  the breakpoints: the base amounts 369, 858 and 1813 of the schedule are whole dollars,
  while the previous segment ends at 369.36, 858.06 and 1812.75. Over the whole line the
  tax is non-decreasing only up to the largest downward jump, 0.36.
\<close>

theorem C1_tax_four_segments:
  "(x \<le> 12000 \<longrightarrow> computeNYCResidentTaxRateSchedule x fs = 0.03078 * x)
   \<and> (12000 < x \<and> x \<le> 25000 \<longrightarrow>
        computeNYCResidentTaxRateSchedule x fs = 369 + 0.03762 * (x - 12000))
   \<and> (25000 < x \<and> x \<le> 50000 \<longrightarrow>
        computeNYCResidentTaxRateSchedule x fs = 858 + 0.03819 * (x - 25000))
   \<and> (50000 < x \<longrightarrow> computeNYCResidentTaxRateSchedule x fs = 1813 + 0.03876 * (x - 50000))
   \<and> continuous_on {..20000} (\<lambda>i. nycTax (pageTax i))
   \<and> continuous_on {20000<..33000} (\<lambda>i. nycTax (pageTax i))
   \<and> continuous_on {33000<..58000} (\<lambda>i. nycTax (pageTax i))
   \<and> continuous_on {58000<..} (\<lambda>i. nycTax (pageTax i))
   \<and> (a \<le> b \<and> bracketOf (nycTaxableIncome (pageTax a)) = bracketOf (nycTaxableIncome (pageTax b))
        \<longrightarrow> nycTax (pageTax a) \<le> nycTax (pageTax b))
   \<and> (a \<le> b \<longrightarrow> nycTax (pageTax a) \<le> nycTax (pageTax b) + 0.36)"
proof -
  have seg: "(x \<le> 12000 \<longrightarrow> computeNYCResidentTaxRateSchedule x fs = 0.03078 * x)
   \<and> (12000 < x \<and> x \<le> 25000 \<longrightarrow>
        computeNYCResidentTaxRateSchedule x fs = 369 + 0.03762 * (x - 12000))
   \<and> (25000 < x \<and> x \<le> 50000 \<longrightarrow>
        computeNYCResidentTaxRateSchedule x fs = 858 + 0.03819 * (x - 25000))
   \<and> (50000 < x \<longrightarrow> computeNYCResidentTaxRateSchedule x fs = 1813 + 0.03876 * (x - 50000))"
    by (simp add: computeNYCResidentTaxRateSchedule_def Let_def)
  have inb: "a \<le> b \<and> bracketOf (nycTaxableIncome (pageTax a)) = bracketOf (nycTaxableIncome (pageTax b))
        \<longrightarrow> nycTax (pageTax a) \<le> nycTax (pageTax b)"
    unfolding pageTax_unfold by (auto intro!: schedule_mono_in_bracket)
  have glob: "a \<le> b \<longrightarrow> nycTax (pageTax a) \<le> nycTax (pageTax b) + 0.36"
  proof
    assume "a \<le> b"
    then have "max 0 (a - 8000) \<le> max 0 (b - 8000)" by simp
    then show "nycTax (pageTax a) \<le> nycTax (pageTax b) + 0.36"
      unfolding pageTax_unfold by (rule schedule_near_mono)
  qed
  from seg inb glob pageTax_cont_bracket0 pageTax_cont_bracket1 pageTax_cont_bracket2
    pageTax_cont_bracket3
  show ?thesis by blast
qed

theorem C1_tax_four_segments_witness:
  "computeNYCResidentTaxRateSchedule 5000 single = 153.9
   \<and> computeNYCResidentTaxRateSchedule 20000 single = 669.96
   \<and> computeNYCResidentTaxRateSchedule 42000 single = 1507.23
   \<and> computeNYCResidentTaxRateSchedule 60000 single = 2200.6
   \<and> nycTax (pageTax 9000) \<le> nycTax (pageTax 15000)
   \<and> nycTax (pageTax 20000) \<le> nycTax (pageTax 20001) + 0.36"
proof -
  have b: "bracketOf (nycTaxableIncome (pageTax 9000)) = bracketOf (nycTaxableIncome (pageTax 15000))"
    by (simp add: pageTax_unfold bracketOf_def)
  from C1_tax_four_segments [of 42000 single 9000 15000] b
  have "computeNYCResidentTaxRateSchedule 42000 single = 858 + 0.03819 * (42000 - 25000)"
    and "nycTax (pageTax 9000) \<le> nycTax (pageTax 15000)"
    by simp_all
  moreover from C1_tax_four_segments [of 5000 single 20000 20001]
  have "computeNYCResidentTaxRateSchedule 5000 single = 0.03078 * 5000"
    and "nycTax (pageTax 20000) \<le> nycTax (pageTax 20001) + 0.36"
    by simp_all
  moreover from C1_tax_four_segments [of 20000 single 0 0]
  have "computeNYCResidentTaxRateSchedule 20000 single = 369 + 0.03762 * (20000 - 12000)"
    by simp
  moreover from C1_tax_four_segments [of 60000 single 0 0]
  have "computeNYCResidentTaxRateSchedule 60000 single = 1813 + 0.03876 * (60000 - 50000)"
    by simp
  ultimately show ?thesis by simp
qed

text \<open>
  Where the claim as written fails: an income of 20000 (taxable income 12000, the end of
  the first bracket) owes 369.36, an income of 20001 owes 369.03762, so the tax falls
  as the income rises, and the tax function is not continuous at 20000.
\<close>

theorem C1_counterexample:
  "nycTax (pageTax 20001) < nycTax (pageTax 20000)
   \<and> \<not> isCont (\<lambda>i. nycTax (pageTax i)) 20000"
  using pageTax_jump_at_20000
  by (simp add: pageTax_low pageTax_segments)

section \<open>Allocation tree: results\<close>

lemma foldl_weight_sum:
  "foldl (\<lambda>a b. a + w b) a xs = a + sum_list (map w xs)"
  for a :: real
  by (induction xs arbitrary: a) simp_all

lemma normalizeWeights_sum:
  "fst (normalizeWeights w items) = sum_list (map w items)"
  by (simp add: normalizeWeights_def Let_def foldl_weight_sum)

lemma normalizeWeights_items:
  "snd (normalizeWeights w items) =
     map (\<lambda>it. \<lparr>n_item = it,
                 n_norm = (if sum_list (map w items) \<noteq> 0
                           then w it / sum_list (map w items) else 0)\<rparr>) items"
  by (simp add: normalizeWeights_def Let_def foldl_weight_sum)

lemma sum_list_scaled:
  "sum_list (map (\<lambda>x. d * (w x / s)) xs) = d * (sum_list (map w xs) / s)"
  for d s :: real
  by (induction xs) (simp_all add: algebra_simps add_divide_distrib)

lemma elem_le_sum_list:
  "x \<in> set xs \<Longrightarrow> \<forall>y\<in>set xs. 0 \<le> y \<Longrightarrow> x \<le> sum_list xs"
  for x :: real
proof (induction xs)
  case Nil
  then show ?case by simp
next
  case (Cons y ys)
  have "0 \<le> sum_list ys" using Cons.prems(2) by (simp add: sum_list_nonneg)
  with Cons show ?case by auto
qed

lemma norms_sum_one:
  assumes "sum_list (map w items) \<noteq> 0"
  shows "sum_list (map n_norm (snd (normalizeWeights w items))) = 1"
  using assms sum_list_scaled [of 1 w "sum_list (map w items)" items]
  by (simp add: normalizeWeights_items comp_def)

lemma norms_zero:
  assumes "sum_list (map w items) = 0"
  shows "\<forall>n \<in> set (snd (normalizeWeights w items)). n_norm n = 0"
  using assms by (simp add: normalizeWeights_items)

lemma norms_unit:
  assumes "0 < sum_list (map w items)" "\<forall>it \<in> set items. 0 \<le> w it"
  shows "\<forall>n \<in> set (snd (normalizeWeights w items)). 0 \<le> n_norm n \<and> n_norm n \<le> 1"
proof -
  have "w it \<le> sum_list (map w items)" if "it \<in> set items" for it
    using that assms(2) by (intro elem_le_sum_list) auto
  with assms show ?thesis
    by (auto simp add: normalizeWeights_items)
qed

lemma checked_agrees:
  "normalizeWeights_checked w items =
     (fst (normalizeWeights w items),
      map (\<lambda>n. (n_item n, Some (n_norm n))) (snd (normalizeWeights w items)))"
  by (simp add: normalizeWeights_checked_def normalizeWeights_def Let_def js_div_def comp_def)

lemma dollars_sum:
  assumes "sum_list (map w items) \<noteq> 0"
  shows "sum_list (map (\<lambda>n. d * n_norm n) (snd (normalizeWeights w items))) = d"
  using assms sum_list_scaled [of d w "sum_list (map w items)" items]
  by (simp add: normalizeWeights_items comp_def)

text \<open>
  Claim C4. For every sibling group: the sum \<open>normalizeWeights\<close> returns is the sum of
  the weights; if it is strictly positive the fractions sum to 1, and each fraction lies
  in [0,1] when moreover every weight is non-negative; if it is 0 every fraction is
  exactly 0. No division by zero is evaluated: with the division made partial, every
  norm is a number, the same one as without the check.
\<close>

theorem C4_normalizeWeights_fractions:
  "fst (normalizeWeights w items) = sum_list (map w items)
   \<and> (0 < fst (normalizeWeights w items) \<longrightarrow>
        sum_list (map n_norm (snd (normalizeWeights w items))) = 1)
   \<and> (0 < fst (normalizeWeights w items) \<and> (\<forall>it \<in> set items. 0 \<le> w it) \<longrightarrow>
        (\<forall>n \<in> set (snd (normalizeWeights w items)). 0 \<le> n_norm n \<and> n_norm n \<le> 1))
   \<and> (fst (normalizeWeights w items) = 0 \<longrightarrow>
        (\<forall>n \<in> set (snd (normalizeWeights w items)). n_norm n = 0))
   \<and> (\<forall>e \<in> set (snd (normalizeWeights_checked w items)). snd e \<noteq> None)
   \<and> normalizeWeights_checked w items =
        (fst (normalizeWeights w items),
         map (\<lambda>n. (n_item n, Some (n_norm n))) (snd (normalizeWeights w items)))"
proof -
  have "\<forall>e \<in> set (snd (normalizeWeights_checked w items)). snd e \<noteq> None"
    by (auto simp add: checked_agrees)
  moreover have "0 < fst (normalizeWeights w items) \<longrightarrow>
        sum_list (map n_norm (snd (normalizeWeights w items))) = 1"
    by (simp add: normalizeWeights_sum norms_sum_one)
  moreover have "0 < fst (normalizeWeights w items) \<and> (\<forall>it \<in> set items. 0 \<le> w it) \<longrightarrow>
        (\<forall>n \<in> set (snd (normalizeWeights w items)). 0 \<le> n_norm n \<and> n_norm n \<le> 1)"
    using norms_unit [of w items] by (simp add: normalizeWeights_sum)
  moreover have "fst (normalizeWeights w items) = 0 \<longrightarrow>
        (\<forall>n \<in> set (snd (normalizeWeights w items)). n_norm n = 0)"
    using norms_zero [of w items] by (simp add: normalizeWeights_sum)
  ultimately show ?thesis
    using normalizeWeights_sum [of w items] checked_agrees [of w items] by blast
qed

theorem C4_normalizeWeights_fractions_witness:
  "normalizeWeights id [1, 3] = (4, [\<lparr>n_item = 1, n_norm = 1/4\<rparr>, \<lparr>n_item = 3, n_norm = 3/4\<rparr>])
   \<and> sum_list (map n_norm (snd (normalizeWeights id [1, 3 :: real]))) = 1
   \<and> n_norm ` set (snd (normalizeWeights id [1, 3 :: real])) \<subseteq> {0..1}
   \<and> fst (normalizeWeights id [1, - 1 :: real]) = 0
   \<and> n_norm ` set (snd (normalizeWeights id [1, - 1 :: real])) \<subseteq> {0}
   \<and> normalizeWeights_checked id [0, 0] = (0, [(0, Some 0), (0, Some 0)])"
proof -
  have a: "normalizeWeights id [1, 3] = (4, [\<lparr>n_item = 1, n_norm = 1/4\<rparr>, \<lparr>n_item = 3, n_norm = 3/4\<rparr>])"
    by (simp add: normalizeWeights_def)
  have c: "normalizeWeights id [0, 0] = (0, [\<lparr>n_item = 0, n_norm = 0\<rparr>, \<lparr>n_item = 0, n_norm = 0\<rparr>])"
    by (simp add: normalizeWeights_def)
  have pos: "0 < fst (normalizeWeights id [1, 3 :: real])"
    by (simp add: a)
  have nn: "\<forall>it \<in> set [1, 3 :: real]. 0 \<le> id it"
    by simp
  have zero: "fst (normalizeWeights id [1, - 1 :: real]) = 0"
    by (simp add: normalizeWeights_def)
  from C4_normalizeWeights_fractions [of id "[1, 3]"] pos nn
  have "sum_list (map n_norm (snd (normalizeWeights id [1, 3 :: real]))) = 1"
    and "\<forall>n \<in> set (snd (normalizeWeights id [1, 3 :: real])). 0 \<le> n_norm n \<and> n_norm n \<le> 1"
    by blast+
  moreover from C4_normalizeWeights_fractions [of id "[1, - 1]"] zero
  have "\<forall>n \<in> set (snd (normalizeWeights id [1, - 1 :: real])). n_norm n = 0"
    by blast
  moreover from C4_normalizeWeights_fractions [of id "[0, 0]"]
  have "normalizeWeights_checked id [0, 0] = (0, [(0, Some 0), (0, Some 0)])"
    by (simp add: c)
  ultimately show ?thesis using a zero by auto
qed

subsection \<open>Dollars over the category tree\<close>

lemma CATEGORIES_weight_sum: "sum_list (map c_weight CATEGORIES) = 100"
  by (simp add: CATEGORIES_def)

lemma CATEGORIES_children:
  "\<forall>c \<in> set CATEGORIES.
     \<exists>ch. c_children c = Some ch \<and> ch \<noteq> [] \<and> 0 < sum_list (map sc_weight ch)"
  by (simp add: CATEGORIES_def)

lemma categoryAlloc_items: "map a_item (categoryAlloc tax) = CATEGORIES"
  by (simp add: categoryAlloc_def normalizeWeights_items comp_def Let_def)

lemma categoryAlloc_total: "sum_list (map dollars (categoryAlloc tax)) = tax"
  using dollars_sum [of c_weight CATEGORIES tax]
  by (simp add: categoryAlloc_def Let_def comp_def CATEGORIES_weight_sum)

lemma selectedSubcats_total:
  assumes "c_children (a_item c) = Some ch" "ch \<noteq> []" "sum_list (map sc_weight ch) \<noteq> 0"
  shows "\<exists>subs. selectedSubcats (Some c) = Some subs \<and> subs \<noteq> []
           \<and> map a_item subs = ch \<and> sum_list (map dollars subs) = dollars c"
  using assms dollars_sum [of sc_weight ch "dollars c"]
  by (simp add: selectedSubcats_def Let_def comp_def normalizeWeights_items)

lemma selectedCategory_member:
  "selectedCategory tax cid = Some c \<Longrightarrow> c \<in> set (categoryAlloc tax)"
  by (auto simp add: selectedCategory_def find_Some_iff)

lemma categoryAlloc_shares:
  "categoryAlloc tax =
     map (\<lambda>c. \<lparr>a_item = c, a_norm = c_weight c / sum_list (map c_weight CATEGORIES),
                dollars = tax * (c_weight c / sum_list (map c_weight CATEGORIES))\<rparr>) CATEGORIES"
  by (simp add: categoryAlloc_def normalizeWeights_items CATEGORIES_weight_sum Let_def comp_def)

lemma selectedSubcats_shares:
  assumes "c_children (a_item c) = Some ch" "ch \<noteq> []" "sum_list (map sc_weight ch) \<noteq> 0"
  shows "selectedSubcats (Some c) =
     Some (map (\<lambda>sc. \<lparr>a_item = sc, a_norm = sc_weight sc / sum_list (map sc_weight ch),
                      dollars = dollars c * (sc_weight sc / sum_list (map sc_weight ch))\<rparr>) ch)"
  using assms by (simp add: selectedSubcats_def Let_def comp_def normalizeWeights_items)

lemma normalizeWeights_shares:
  assumes "fst (normalizeWeights w items) \<noteq> 0"
  shows "snd (normalizeWeights w items) =
     map (\<lambda>it. \<lparr>n_item = it, n_norm = w it / sum_list (map w items)\<rparr>) items"
  using assms by (simp add: normalizeWeights_sum normalizeWeights_items)

lemma member_children:
  assumes "c \<in> set (categoryAlloc tax)"
  obtains ch where "c_children (a_item c) = Some ch" "ch \<noteq> []" "0 < sum_list (map sc_weight ch)"
proof -
  from assms have "a_item c \<in> set (map a_item (categoryAlloc tax))" by simp
  then have "a_item c \<in> set CATEGORIES" by (simp only: categoryAlloc_items)
  with CATEGORIES_children that show ?thesis by blast
qed

lemma subcats_of_members:
  "\<forall>c \<in> set (categoryAlloc tax). \<forall>ch. c_children (a_item c) = Some ch \<longrightarrow>
        selectedSubcats (Some c) =
          Some (map (\<lambda>sc. \<lparr>a_item = sc, a_norm = sc_weight sc / sum_list (map sc_weight ch),
                           dollars = dollars c * (sc_weight sc / sum_list (map sc_weight ch))\<rparr>) ch)"
proof (intro ballI allI impI)
  fix c ch
  assume c: "c \<in> set (categoryAlloc tax)" and ch: "c_children (a_item c) = Some ch"
  from c obtain ch' where ch': "c_children (a_item c) = Some ch'" "ch' \<noteq> []"
      "0 < sum_list (map sc_weight ch')"
    by (rule member_children)
  with ch have "ch \<noteq> []" "sum_list (map sc_weight ch) \<noteq> 0" by auto
  with ch show "selectedSubcats (Some c) =
          Some (map (\<lambda>sc. \<lparr>a_item = sc, a_norm = sc_weight sc / sum_list (map sc_weight ch),
                           dollars = dollars c * (sc_weight sc / sum_list (map sc_weight ch))\<rparr>) ch)"
    by (rule selectedSubcats_shares)
qed

text \<open>
  Claim C2. For every tax amount, each top-level category receives the tax times its
  weight over the sum of the top-level weights, and these dollars sum to the tax. For
  every category (each has a non-empty list of children), each subcategory receives, as
  \<open>selectedSubcats\<close> computes it when that category is selected, the category's dollars
  times its weight over the sum of the weights of that category's children only, and
  these dollars sum to the category's own dollars. The sums are exact over the reals.
  Behind both: for any sibling group whose weights do not sum to 0, as in every group of
  the tree, each fraction is the weight over the sum of the group's weights, and the
  products of the parent's dollars with the fractions sum to the parent's dollars.
\<close>

theorem C2_allocated_dollars_sum_to_parent:
  "sum_list (map dollars (categoryAlloc tax)) = tax
   \<and> map a_item (categoryAlloc tax) = CATEGORIES
   \<and> (\<forall>c \<in> set (categoryAlloc tax).
        \<exists>subs. selectedSubcats (Some c) = Some subs \<and> subs \<noteq> []
          \<and> Some (map a_item subs) = c_children (a_item c)
          \<and> sum_list (map dollars subs) = dollars c)
   \<and> (\<forall>cid c. selectedCategory tax cid = Some c \<longrightarrow>
        (\<exists>subs. selectedSubcats (selectedCategory tax cid) = Some subs
          \<and> sum_list (map dollars subs) = dollars c))
   \<and> (fst (normalizeWeights w items) \<noteq> 0 \<longrightarrow>
        sum_list (map (\<lambda>n. parentDollars * n_norm n) (snd (normalizeWeights w items)))
          = parentDollars)
   \<and> categoryAlloc tax =
        map (\<lambda>c. \<lparr>a_item = c, a_norm = c_weight c / sum_list (map c_weight CATEGORIES),
                   dollars = tax * (c_weight c / sum_list (map c_weight CATEGORIES))\<rparr>)
          CATEGORIES
   \<and> (\<forall>c \<in> set (categoryAlloc tax). \<forall>ch. c_children (a_item c) = Some ch \<longrightarrow>
        selectedSubcats (Some c) =
          Some (map (\<lambda>sc. \<lparr>a_item = sc, a_norm = sc_weight sc / sum_list (map sc_weight ch),
                           dollars = dollars c * (sc_weight sc / sum_list (map sc_weight ch))\<rparr>)
                  ch))
   \<and> (fst (normalizeWeights w items) \<noteq> 0 \<longrightarrow>
        snd (normalizeWeights w items) =
          map (\<lambda>it. \<lparr>n_item = it, n_norm = w it / sum_list (map w items)\<rparr>) items)"
proof -
  have shares: "fst (normalizeWeights w items) \<noteq> 0 \<longrightarrow>
        snd (normalizeWeights w items) =
          map (\<lambda>it. \<lparr>n_item = it, n_norm = w it / sum_list (map w items)\<rparr>) items"
    using normalizeWeights_shares [of w items] by blast
  have gen: "fst (normalizeWeights w items) \<noteq> 0 \<longrightarrow>
        sum_list (map (\<lambda>n. parentDollars * n_norm n) (snd (normalizeWeights w items)))
          = parentDollars"
    using dollars_sum [of w items parentDollars] by (simp add: normalizeWeights_sum)
  have sub: "\<exists>subs. selectedSubcats (Some c) = Some subs \<and> subs \<noteq> []
          \<and> Some (map a_item subs) = c_children (a_item c)
          \<and> sum_list (map dollars subs) = dollars c"
    if "c \<in> set (categoryAlloc tax)" for c
  proof -
    from that have "a_item c \<in> set (map a_item (categoryAlloc tax))" by simp
    then have "a_item c \<in> set CATEGORIES" by (simp only: categoryAlloc_items)
    with CATEGORIES_children obtain ch where
      ch: "c_children (a_item c) = Some ch" "ch \<noteq> []" "0 < sum_list (map sc_weight ch)"
      by blast
    then have "sum_list (map sc_weight ch) \<noteq> 0" by simp
    from selectedSubcats_total [OF ch(1) ch(2) this] ch(1) show ?thesis by auto
  qed
  have "\<exists>subs. selectedSubcats (selectedCategory tax cid) = Some subs
          \<and> sum_list (map dollars subs) = dollars c"
    if "selectedCategory tax cid = Some c" for cid c
    using sub [OF selectedCategory_member [OF that]] that by auto
  with sub gen shares categoryAlloc_total categoryAlloc_items
    categoryAlloc_shares [of tax] subcats_of_members [of tax]
  show ?thesis by blast
qed

text \<open>
  The example of the specification: a tax of 1507.23, Education selected. Education
  receives \<open>1507.23 * 29.71 / 100\<close> dollars; its subcategories share exactly that, and
  the first of them, with weight 16.6 among children whose weights sum to 42.723,
  receives \<open>1507.23 * 29.71 / 100 * (16.6 / 42.723)\<close>.
\<close>

lemma selectedCategory_education:
  "\<exists>c rest. selectedCategory 1507.23 (Some ''education'') = Some c
        \<and> dollars c = 1507.23 * 29.71 / 100
        \<and> c_children (a_item c)
            = Some (\<lparr>sc_label = ''K-12 schools & instruction'', sc_weight = 16.6\<rparr> # rest)
        \<and> sum_list (map sc_weight
             (\<lparr>sc_label = ''K-12 schools & instruction'', sc_weight = 16.6\<rparr> # rest)) = 42.723"
  by (simp add: selectedCategory_def categoryAlloc_def normalizeWeights_items
      CATEGORIES_weight_sum Let_def) (simp add: CATEGORIES_def)

theorem C2_allocated_dollars_sum_to_parent_witness:
  "(\<exists>c subs. selectedCategory 1507.23 (Some ''education'') = Some c
     \<and> c \<in> set (categoryAlloc 1507.23)
     \<and> dollars c = 1507.23 * 29.71 / 100
     \<and> selectedSubcats (selectedCategory 1507.23 (Some ''education'')) = Some subs
     \<and> subs \<noteq> []
     \<and> sc_label (a_item (hd subs)) = ''K-12 schools & instruction''
     \<and> dollars (hd subs) = 1507.23 * 29.71 / 100 * (16.6 / 42.723)
     \<and> sum_list (map dollars subs) = dollars c)
   \<and> sum_list (map (\<lambda>n. 100 * n_norm n) (snd (normalizeWeights id [1, 3]))) = 100
   \<and> snd (normalizeWeights id [1, 3])
       = [\<lparr>n_item = 1, n_norm = 1 / 4\<rparr>, \<lparr>n_item = 3, n_norm = 3 / 4\<rparr>]"
proof -
  let ?k12 = "\<lparr>sc_label = ''K-12 schools & instruction'', sc_weight = 16.6\<rparr>"
  from selectedCategory_education obtain c rest where
    c: "selectedCategory 1507.23 (Some ''education'') = Some c"
       "dollars c = 1507.23 * 29.71 / 100"
       "c_children (a_item c) = Some (?k12 # rest)"
       "sum_list (map sc_weight (?k12 # rest)) = 42.723"
    by blast
  have m: "c \<in> set (categoryAlloc 1507.23)"
    using c(1) by (rule selectedCategory_member)
  have nz: "fst (normalizeWeights id [1, 3 :: real]) \<noteq> 0"
    by (simp add: normalizeWeights_def)
  note inst = C2_allocated_dollars_sum_to_parent [of "1507.23" id "[1, 3]" 100]
  from inst m c(3)
  have subs: "selectedSubcats (Some c) =
      Some (map (\<lambda>sc. \<lparr>a_item = sc,
                   a_norm = sc_weight sc / sum_list (map sc_weight (?k12 # rest)),
                   dollars = dollars c * (sc_weight sc / sum_list (map sc_weight (?k12 # rest)))\<rparr>)
              (?k12 # rest))"
    by blast
  define subs' where "subs' = map (\<lambda>sc. \<lparr>a_item = sc,
                   a_norm = sc_weight sc / sum_list (map sc_weight (?k12 # rest)),
                   dollars = dollars c * (sc_weight sc / sum_list (map sc_weight (?k12 # rest)))\<rparr>)
              (?k12 # rest)"
  have s1: "selectedSubcats (selectedCategory 1507.23 (Some ''education'')) = Some subs'"
    unfolding c(1) subs'_def by (rule subs)
  have s2: "subs' \<noteq> []" "sc_label (a_item (hd subs')) = ''K-12 schools & instruction''"
    by (simp_all add: subs'_def)
  have s3: "dollars (hd subs') = 1507.23 * 29.71 / 100 * (16.6 / 42.723)"
    unfolding subs'_def c(4) by (simp add: c(2))
  from inst c(1)
  obtain subs2 where "selectedSubcats (selectedCategory 1507.23 (Some ''education'')) = Some subs2"
    "sum_list (map dollars subs2) = dollars c"
    by blast
  with s1 have s4: "sum_list (map dollars subs') = dollars c"
    by simp
  from inst nz
  have g1: "sum_list (map (\<lambda>n. 100 * n_norm n) (snd (normalizeWeights id [1, 3]))) = 100"
    by blast
  from inst nz
  have "snd (normalizeWeights id [1, 3 :: real])
      = map (\<lambda>it. \<lparr>n_item = it, n_norm = id it / sum_list (map id [1, 3])\<rparr>) [1, 3]"
    by blast
  then have g2: "snd (normalizeWeights id [1, 3])
       = [\<lparr>n_item = 1, n_norm = 1 / 4\<rparr>, \<lparr>n_item = 3, n_norm = 3 / 4\<rparr>]"
    by simp
  from c(1,2) m s1 s2 s3 s4 have
    "\<exists>c subs. selectedCategory 1507.23 (Some ''education'') = Some c
     \<and> c \<in> set (categoryAlloc 1507.23)
     \<and> dollars c = 1507.23 * 29.71 / 100
     \<and> selectedSubcats (selectedCategory 1507.23 (Some ''education'')) = Some subs
     \<and> subs \<noteq> []
     \<and> sc_label (a_item (hd subs)) = ''K-12 schools & instruction''
     \<and> dollars (hd subs) = 1507.23 * 29.71 / 100 * (16.6 / 42.723)
     \<and> sum_list (map dollars subs) = dollars c"
    by blast
  with g1 g2 show ?thesis by blast
qed

section \<open>Radial layout: results\<close>

lemma sliceWalk_length [simp]:
  "length (sliceWalk mc ms T cx cy rm sa acc items) = length items"
  by (induction items arbitrary: acc) (simp_all add: Let_def)

lemma sliceWalk_angles:
  "map (l_angle \<circ> fst) (sliceWalk mc ms T cx cy rm sa acc items) = map (sweepOf T) items"
  by (induction items arbitrary: acc) (simp_all add: Let_def sweepOf_def)

lemma sliceWalk_labels:
  "map (ds_label \<circ> snd) (sliceWalk mc ms T cx cy rm sa acc items) = map ri_label items"
  by (induction items arbitrary: acc) (simp_all add: Let_def)

text \<open>The cursor: slice \<open>i\<close> starts at the start angle plus the sweeps before it.\<close>

lemma sliceWalk_start:
  "i < length items \<Longrightarrow>
     l_start (fst (sliceWalk mc ms T cx cy rm sa acc items ! i))
       = sa + acc + sum_list (take i (map (sweepOf T) items))"
proof (induction items arbitrary: acc i)
  case Nil
  then show ?case by simp
next
  case (Cons it its)
  show ?case
  proof (cases i)
    case 0
    then show ?thesis by (simp add: Let_def)
  next
    case (Suc k)
    with Cons.prems have "k < length its" by simp
    from Cons.IH [OF this, of "acc + sweepOf T it"] Suc
    show ?thesis by (simp add: Let_def sweepOf_def algebra_simps)
  qed
qed



lemma foldl_value_sum:
  "foldl (\<lambda>a b. a + max 0 (ri_value b)) a xs = a + sum_list (map (\<lambda>b. max 0 (ri_value b)) xs)"
  for a :: real
  by (induction xs arbitrary: a) simp_all

lemma donutTrace_unfold:
  "donutTrace mc ms items sz th sa =
     sliceWalk mc ms (max 1 (sum_list (map (\<lambda>b. max 0 (ri_value b)) items))) (sz / 2) (sz / 2)
       (sz / 2 - RING_PADDING - th / 2) (case sa of None \<Rightarrow> - 90 | Some a \<Rightarrow> a) 0 items"
  by (simp add: donutTrace_def Let_def foldl_value_sum)

lemma sum_sweeps:
  "sum_list (map (sweepOf T) items) = sum_list (map (\<lambda>b. max 0 (ri_value b)) items) / T * 360"
  by (induction items) (simp_all add: sweepOf_def algebra_simps add_divide_distrib)

text \<open>
  Claim C3, as the code has it. For every list of slices with non-negative values
  summing to \<open>S\<close>, slice \<open>i\<close> gets a sweep of \<open>360 * v_i / max 1 S\<close> degrees: the total
  is floored at 1. So for \<open>S \<ge> 1\<close> the sweep is \<open>360 * v_i / S\<close> and the sweeps sum to 360;
  for \<open>S < 1\<close> they sum to \<open>360 * S\<close>. Slices are in input order; the first span starts
  at the start angle (default -90) and each span starts where the previous one ended.
\<close>

theorem C3_sweep_angles:
  assumes nn: "\<forall>it \<in> set items. 0 \<le> ri_value it"
  shows "sweepAngles mc ms items sz th sa
           = map (\<lambda>it. 360 * ri_value it / max 1 (valueSum items)) items
    \<and> (1 \<le> valueSum items \<longrightarrow>
         sweepAngles mc ms items sz th sa = map (\<lambda>it. 360 * ri_value it / valueSum items) items
         \<and> sum_list (sweepAngles mc ms items sz th sa) = 360)
    \<and> (valueSum items < 1 \<longrightarrow> sum_list (sweepAngles mc ms items sz th sa) = 360 * valueSum items)
    \<and> map ds_label (computeDonutSlices mc ms items sz th sa) = map ri_label items
    \<and> (\<forall>i < length items.
          l_start (fst (donutTrace mc ms items sz th sa ! i))
            = (case sa of None \<Rightarrow> - 90 | Some a \<Rightarrow> a)
              + sum_list (take i (sweepAngles mc ms items sz th sa)))
    \<and> (\<forall>i. Suc i < length items \<longrightarrow>
          l_start (fst (donutTrace mc ms items sz th sa ! Suc i))
            = l_start (fst (donutTrace mc ms items sz th sa ! i))
              + l_angle (fst (donutTrace mc ms items sz th sa ! i)))"
proof -
  define S where "S = valueSum items"
  let ?T = "max 1 S"
  have vs: "map (\<lambda>b. max 0 (ri_value b)) items = map ri_value items"
    using nn by simp
  have S: "S = sum_list (map ri_value items)"
    by (simp add: S_def valueSum_def)
  have sw: "sweepAngles mc ms items sz th sa = map (sweepOf ?T) items"
    by (simp add: sweepAngles_def donutTrace_unfold sliceWalk_angles vs S)
  have sw': "map (sweepOf ?T) items = map (\<lambda>it. 360 * ri_value it / max 1 S) items"
    using nn by (simp add: sweepOf_def max_def)
  have total: "sum_list (map (sweepOf ?T) items) = S / ?T * 360"
    by (simp add: sum_sweeps vs S)
  have a: "sweepAngles mc ms items sz th sa = map (\<lambda>it. 360 * ri_value it / max 1 S) items"
    by (simp only: sw sw')
  have b: "1 \<le> S \<longrightarrow> sweepAngles mc ms items sz th sa = map (\<lambda>it. 360 * ri_value it / S) items
                    \<and> sum_list (sweepAngles mc ms items sz th sa) = 360"
  proof
    assume "1 \<le> S"
    then have T: "max 1 S = S" by simp
    have "sum_list (sweepAngles mc ms items sz th sa) = 360"
      using total \<open>1 \<le> S\<close> by (simp add: sw T)
    with a T show "sweepAngles mc ms items sz th sa = map (\<lambda>it. 360 * ri_value it / S) items
                    \<and> sum_list (sweepAngles mc ms items sz th sa) = 360"
      by simp
  qed
  have c: "S < 1 \<longrightarrow> sum_list (sweepAngles mc ms items sz th sa) = 360 * S"
  proof
    assume "S < 1"
    then have T: "max 1 S = 1" by simp
    show "sum_list (sweepAngles mc ms items sz th sa) = 360 * S"
      using total by (simp add: sw T)
  qed
  have d: "map ds_label (computeDonutSlices mc ms items sz th sa) = map ri_label items"
    using sliceWalk_labels by (simp add: computeDonutSlices_def donutTrace_unfold)
  have f: "l_start (fst (donutTrace mc ms items sz th sa ! i))
            = (case sa of None \<Rightarrow> - 90 | Some a \<Rightarrow> a)
              + sum_list (take i (sweepAngles mc ms items sz th sa))" if "i < length items" for i
    using sliceWalk_start [OF that] by (simp add: sw donutTrace_unfold vs S)
  have g: "l_start (fst (donutTrace mc ms items sz th sa ! Suc i))
            = l_start (fst (donutTrace mc ms items sz th sa ! i))
              + l_angle (fst (donutTrace mc ms items sz th sa ! i))" if "Suc i < length items" for i
  proof -
    have i: "i < length items" using that by simp
    have "l_angle (fst (donutTrace mc ms items sz th sa ! i)) = sweepAngles mc ms items sz th sa ! i"
      using i by (simp add: sweepAngles_def donutTrace_unfold)
    moreover have "take (Suc i) (sweepAngles mc ms items sz th sa)
        = take i (sweepAngles mc ms items sz th sa) @ [sweepAngles mc ms items sz th sa ! i]"
      using i by (simp add: take_Suc_conv_app_nth sw)
    ultimately show ?thesis using f [OF that] f [OF i] by simp
  qed
  from a b c d f g show ?thesis unfolding S_def by blast
qed

theorem C3_sweep_angles_witness:
  "sweepAngles cos sin [\<lparr>ri_label = ''a'', ri_value = 1, ri_color = None\<rparr>,
                \<lparr>ri_label = ''b'', ri_value = 3, ri_color = None\<rparr>] 360 26 None = [90, 270]
   \<and> l_start (fst (donutTrace cos sin [\<lparr>ri_label = ''a'', ri_value = 1, ri_color = None\<rparr>,
                \<lparr>ri_label = ''b'', ri_value = 3, ri_color = None\<rparr>] 360 26 None ! 0)) = - 90
   \<and> l_start (fst (donutTrace cos sin [\<lparr>ri_label = ''a'', ri_value = 1, ri_color = None\<rparr>,
                \<lparr>ri_label = ''b'', ri_value = 3, ri_color = None\<rparr>] 360 26 None ! 1)) = 0
   \<and> sum_list (sweepAngles cos sin [\<lparr>ri_label = ''c'', ri_value = 1/4, ri_color = None\<rparr>,
                \<lparr>ri_label = ''d'', ri_value = 1/4, ri_color = None\<rparr>] 360 26 None) = 180"
proof -
  let ?items = "[\<lparr>ri_label = ''a'', ri_value = 1, ri_color = None\<rparr>,
                \<lparr>ri_label = ''b'', ri_value = 3, ri_color = None\<rparr>]"
  let ?small = "[\<lparr>ri_label = ''c'', ri_value = 1/4, ri_color = None\<rparr>,
                \<lparr>ri_label = ''d'', ri_value = 1/4, ri_color = None\<rparr>]"
  have nn: "\<forall>it \<in> set ?items. 0 \<le> ri_value it" by simp
  have S: "valueSum ?items = 4" by (simp add: valueSum_def)
  note big = C3_sweep_angles [OF nn, of cos sin 360 26 None]
  from big S have sw: "sweepAngles cos sin ?items 360 26 None = [90, 270]" by simp
  note starts = big [THEN conjunct2, THEN conjunct2, THEN conjunct2, THEN conjunct2,
      THEN conjunct1, rule_format]
  have "l_start (fst (donutTrace cos sin ?items 360 26 None ! 0))
        = - 90 + sum_list (take 0 (sweepAngles cos sin ?items 360 26 None))"
    using starts [of 0] by simp
  moreover have "l_start (fst (donutTrace cos sin ?items 360 26 None ! 1))
        = - 90 + sum_list (take 1 (sweepAngles cos sin ?items 360 26 None))"
    using starts [of 1] by simp
  ultimately have st: "l_start (fst (donutTrace cos sin ?items 360 26 None ! 0)) = - 90"
    "l_start (fst (donutTrace cos sin ?items 360 26 None ! 1)) = 0"
    by (simp_all add: sw)
  have nn': "\<forall>it \<in> set ?small. 0 \<le> ri_value it" by simp
  have S': "valueSum ?small = 1/2" by (simp add: valueSum_def)
  from C3_sweep_angles [OF nn', of cos sin 360 26 None] S'
  have "sum_list (sweepAngles cos sin ?small 360 26 None) = 180" by simp
  with sw st show ?thesis by blast
qed

text \<open>
  Where the claim as written fails: one slice of value 1/2. The values are non-negative
  and sum to \<open>S = 1/2 > 0\<close>, the claimed sweep \<open>360 * v / S\<close> is 360, yet the slice
  sweeps 180 degrees and the sweeps do not sum to 360. The page reaches such rings: an
  income of 8001 owes a tax of 0.03078, which is the sum of the category ring's values.
\<close>

theorem C3_counterexample:
  "0 \<le> ri_value \<lparr>ri_label = ''a'', ri_value = 1/2, ri_color = None\<rparr>
   \<and> 0 < valueSum [\<lparr>ri_label = ''a'', ri_value = 1/2, ri_color = None\<rparr>]
   \<and> sweepAngles cos sin [\<lparr>ri_label = ''a'', ri_value = 1/2, ri_color = None\<rparr>] 360 26 None = [180]
   \<and> 360 * (1/2) / valueSum [\<lparr>ri_label = ''a'', ri_value = 1/2, ri_color = None\<rparr>] = 360
   \<and> sum_list (sweepAngles cos sin [\<lparr>ri_label = ''a'', ri_value = 1/2, ri_color = None\<rparr>] 360 26 None)
       \<noteq> 360"
  by (simp add: valueSum_def sweepAngles_def donutTrace_def Let_def)

section \<open>Label rails: results\<close>






lemma measureLines_Cons:
  "measureLines (Some c) (Some d) refs (s # slices) lines =
     (case refs (ds_label s) of
        None \<Rightarrow> measureLines (Some c) (Some d) refs slices lines
      | Some labelRect \<Rightarrow>
          \<lparr>ln_label = ds_label s,
            x1 = (if r_left labelRect < r_left c + r_width c / 2
                  then r_right labelRect - r_left c else r_left labelRect - r_left c),
            y1 = r_top labelRect - r_top c + r_height labelRect / 2,
            x2 = r_left d - r_left c + midX s,
            y2 = r_top d - r_top c + midY s,
            isLeft = (r_left labelRect < r_left c + r_width c / 2),
            ln_color = ds_color s\<rparr>
          # measureLines (Some c) (Some d) refs slices lines)"
  by (simp add: measureLines_def Let_def split: option.splits)

lemma measureLines_Nil: "measureLines (Some c) (Some d) refs [] lines = []"
  by (simp add: measureLines_def)

lemma measureLines_labels:
  "map ln_label (measureLines (Some c) (Some d) refs slices lines)
     = filter (\<lambda>l. refs l \<noteq> None) (map ds_label slices)"
  by (induction slices) (auto simp add: measureLines_Nil measureLines_Cons split: option.splits)

lemma measureLines_target:
  "s \<in> set slices \<Longrightarrow> refs (ds_label s) \<noteq> None \<Longrightarrow>
     \<exists>ln \<in> set (measureLines (Some c) (Some d) refs slices lines).
        ln_label ln = ds_label s \<and> ln_color ln = ds_color s
        \<and> x2 ln = r_left d - r_left c + midX s \<and> y2 ln = r_top d - r_top c + midY s"
  by (induction slices) (auto simp add: measureLines_Nil measureLines_Cons split: option.splits)

text \<open>
  Claim C9. With the container and the donut present, \<open>measureLines\<close> returns one line
  for each slice whose label is measured, in slice order, and none for a slice whose
  label is missing; every measured slice has its line, ending on the slice's midpoint.
  A missing label is no error: the function is total, and the other lines are computed
  all the same.
\<close>

theorem C9_missing_label_omitted:
  "map ln_label (measureLines (Some c) (Some d) refs slices lines)
     = filter (\<lambda>l. refs l \<noteq> None) (map ds_label slices)
   \<and> length (measureLines (Some c) (Some d) refs slices lines)
     = length (filter (\<lambda>s. refs (ds_label s) \<noteq> None) slices)
   \<and> (\<forall>s \<in> set slices. refs (ds_label s) = None \<longrightarrow>
        ds_label s \<notin> ln_label ` set (measureLines (Some c) (Some d) refs slices lines))
   \<and> (\<forall>s \<in> set slices. refs (ds_label s) \<noteq> None \<longrightarrow>
        (\<exists>ln \<in> set (measureLines (Some c) (Some d) refs slices lines).
           ln_label ln = ds_label s \<and> ln_color ln = ds_color s
           \<and> x2 ln = r_left d - r_left c + midX s \<and> y2 ln = r_top d - r_top c + midY s))"
proof -
  let ?r = "measureLines (Some c) (Some d) refs slices lines"
  have l: "map ln_label ?r = filter (\<lambda>l. refs l \<noteq> None) (map ds_label slices)"
    by (rule measureLines_labels)
  have "length ?r = length (map ln_label ?r)" by simp
  also have "\<dots> = length (filter (\<lambda>s. refs (ds_label s) \<noteq> None) slices)"
    by (simp only: l filter_map comp_def length_map)
  finally have n: "length ?r = length (filter (\<lambda>s. refs (ds_label s) \<noteq> None) slices)" .
  have "ln_label ` set ?r = set (map ln_label ?r)" by simp
  also have "\<dots> = {l \<in> set (map ds_label slices). refs l \<noteq> None}"
    by (simp only: l set_filter)
  finally have m: "\<forall>s \<in> set slices. refs (ds_label s) = None \<longrightarrow> ds_label s \<notin> ln_label ` set ?r"
    by simp
  from l n m measureLines_target [of _ slices refs c d lines] show ?thesis by blast
qed

theorem C9_missing_label_omitted_witness:
  "measureLines
     (Some \<lparr>r_left = 0, r_top = 0, r_right = 800, r_width = 800, r_height = 400\<rparr>)
     (Some \<lparr>r_left = 220, r_top = 20, r_right = 580, r_width = 360, r_height = 360\<rparr>)
     [''a'' \<mapsto> \<lparr>r_left = 10, r_top = 30, r_right = 190, r_width = 180, r_height = 40\<rparr>]
     [\<lparr>ds_label = ''b'', ds_value = 1, pct = 25, ds_color = None, midX = 200, midY = 50,
        isRight = True\<rparr>,
      \<lparr>ds_label = ''a'', ds_value = 3, pct = 75, ds_color = None, midX = 100, midY = 300,
        isRight = False\<rparr>]
     []
   = [\<lparr>ln_label = ''a'', x1 = 190, y1 = 50, x2 = 320, y2 = 320, isLeft = True,
        ln_color = None\<rparr>]
   \<and> ''b'' \<notin> ln_label ` set (measureLines
     (Some \<lparr>r_left = 0, r_top = 0, r_right = 800, r_width = 800, r_height = 400\<rparr>)
     (Some \<lparr>r_left = 220, r_top = 20, r_right = 580, r_width = 360, r_height = 360\<rparr>)
     [''a'' \<mapsto> \<lparr>r_left = 10, r_top = 30, r_right = 190, r_width = 180, r_height = 40\<rparr>]
     [\<lparr>ds_label = ''b'', ds_value = 1, pct = 25, ds_color = None, midX = 200, midY = 50,
        isRight = True\<rparr>,
      \<lparr>ds_label = ''a'', ds_value = 3, pct = 75, ds_color = None, midX = 100, midY = 300,
        isRight = False\<rparr>]
     [])
   \<and> (\<exists>ln \<in> set (measureLines
     (Some \<lparr>r_left = 0, r_top = 0, r_right = 800, r_width = 800, r_height = 400\<rparr>)
     (Some \<lparr>r_left = 220, r_top = 20, r_right = 580, r_width = 360, r_height = 360\<rparr>)
     [''a'' \<mapsto> \<lparr>r_left = 10, r_top = 30, r_right = 190, r_width = 180, r_height = 40\<rparr>]
     [\<lparr>ds_label = ''b'', ds_value = 1, pct = 25, ds_color = None, midX = 200, midY = 50,
        isRight = True\<rparr>,
      \<lparr>ds_label = ''a'', ds_value = 3, pct = 75, ds_color = None, midX = 100, midY = 300,
        isRight = False\<rparr>]
     []). ln_label ln = ''a'' \<and> x2 ln = 320 \<and> y2 ln = 320)"
proof -
  let ?c = "\<lparr>r_left = 0, r_top = 0, r_right = 800, r_width = 800, r_height = 400\<rparr>"
  let ?d = "\<lparr>r_left = 220, r_top = 20, r_right = 580, r_width = 360, r_height = 360\<rparr>"
  let ?refs = "[''a'' \<mapsto> \<lparr>r_left = 10, r_top = 30, r_right = 190, r_width = 180, r_height = 40\<rparr>]"
  let ?b = "\<lparr>ds_label = ''b'', ds_value = 1, pct = 25, ds_color = None, midX = 200, midY = 50,
              isRight = True\<rparr>"
  let ?a = "\<lparr>ds_label = ''a'', ds_value = 3, pct = 75, ds_color = None, midX = 100, midY = 300,
              isRight = False\<rparr>"
  note inst = C9_missing_label_omitted [of ?c ?d ?refs "[?b, ?a]" "[]"]
  have "measureLines (Some ?c) (Some ?d) ?refs [?b, ?a] []
     = [\<lparr>ln_label = ''a'', x1 = 190, y1 = 50, x2 = 320, y2 = 320, isLeft = True,
          ln_color = None\<rparr>]"
    by (simp add: measureLines_def Let_def)
  moreover have "?b \<in> set [?b, ?a]" "?refs (ds_label ?b) = None" by simp_all
  with inst
  have "ds_label ?b \<notin> ln_label ` set (measureLines (Some ?c) (Some ?d) ?refs [?b, ?a] [])"
    by blast
  moreover have "?a \<in> set [?b, ?a]" "?refs (ds_label ?a) \<noteq> None" by simp_all
  with inst
  have "\<exists>ln \<in> set (measureLines (Some ?c) (Some ?d) ?refs [?b, ?a] []).
          ln_label ln = ds_label ?a \<and> ln_color ln = ds_color ?a
          \<and> x2 ln = r_left ?d - r_left ?c + midX ?a \<and> y2 ln = r_top ?d - r_top ?c + midY ?a"
    by blast
  ultimately show ?thesis by simp
qed

section \<open>Drill state: results\<close>

lemma handle_level:
  "unlockedLevel (handle s a) =
     (case a of
        ClickCrumbIncome \<Rightarrow> 0
      | ClickCrumbTax \<Rightarrow> (if unlockedLevel s \<ge> 1 then 1 else unlockedLevel s)
      | ClickCrumbAllocation \<Rightarrow> (if unlockedLevel s \<ge> 2 then 2 else unlockedLevel s)
      | ClickCrumbDrilldown \<Rightarrow> (if unlockedLevel s \<ge> 3 then 3 else unlockedLevel s)
      | ClickIncomeCard \<Rightarrow> max (unlockedLevel s) 2
      | ClickCategoryItem label \<Rightarrow>
          (if categoryRingShown s
              \<and> find (\<lambda>x. c_label (a_item x) = label) (categoryAlloc (stateTax s)) \<noteq> None
           then max (unlockedLevel s) 3 else unlockedLevel s)
      | _ \<Rightarrow> unlockedLevel s)"
  by (cases a) (auto simp add: unlockTo_def split: option.splits)

lemma step_level: "unlockedLevel (step s a) = unlockedLevel (handle s a)"
  by (simp add: step_def categoryEffect_def)

lemma step_category: "selectedCategoryId (step s a) = selectedCategoryId (handle s a)"
  by (simp add: step_def categoryEffect_def)

lemma step_level_le3: "unlockedLevel s \<le> 3 \<Longrightarrow> unlockedLevel (step s a) \<le> 3"
  by (cases a) (auto simp add: step_level handle_level simp del: handle.simps)

lemma run_snoc: "run (acts @ [a]) = step (run acts) a"
  by (simp add: run_def)

text \<open>Every state the page reaches has a level between 0 and 3.\<close>

lemma run_level_le3: "unlockedLevel (run acts) \<le> 3"
proof (induction acts rule: rev_induct)
  case Nil
  then show ?case by (simp add: run_def initialState_def)
next
  case (snoc a acts)
  then show ?case by (simp only: run_snoc step_level_le3)
qed

lemma step_level_mono:
  "unlockedLevel s \<le> 3 \<Longrightarrow> a \<notin> {ClickCrumbIncome, ClickCrumbTax, ClickCrumbAllocation} \<Longrightarrow>
     unlockedLevel s \<le> unlockedLevel (step s a)"
  by (cases a) (auto simp add: step_level handle_level simp del: handle.simps)

lemma step_reset:
  "step s ClickCrumbIncome
     = s\<lparr>unlockedLevel := 0, selectedCategoryId := None, selectedSubcategoryLabel := None\<rparr>"
  by (simp add: step_def categoryEffect_def)

lemma step_crumb_tax:
  "step s ClickCrumbTax =
     (if unlockedLevel s \<ge> 1
      then s\<lparr>unlockedLevel := 1, selectedCategoryId := None, selectedSubcategoryLabel := None\<rparr>
      else s)"
  by (simp add: step_def categoryEffect_def)

lemma step_crumb_allocation:
  "step s ClickCrumbAllocation =
     (if unlockedLevel s \<ge> 2
      then s\<lparr>unlockedLevel := 2, selectedCategoryId := None, selectedSubcategoryLabel := None\<rparr>
      else s)"
  by (simp add: step_def categoryEffect_def)

subsection \<open>A session of the page\<close>

lemma find_map_option: "find P (map f xs) = map_option f (find (P \<circ> f) xs)"
  by (induction xs) simp_all

lemma categoryAlloc_map:
  "categoryAlloc t =
     map (\<lambda>c. \<lparr>a_item = c, a_norm = c_weight c / 100, dollars = t * (c_weight c / 100)\<rparr>)
       CATEGORIES"
  by (simp add: categoryAlloc_def normalizeWeights_items CATEGORIES_weight_sum Let_def comp_def)

lemma find_categoryAlloc:
  "find (\<lambda>x. P (a_item x)) (categoryAlloc t) =
     map_option (\<lambda>c. \<lparr>a_item = c, a_norm = c_weight c / 100, dollars = t * (c_weight c / 100)\<rparr>)
       (find P CATEGORIES)"
  by (simp add: categoryAlloc_map find_map_option comp_def)

lemma find_label_ids:
  "map_option c_id (find (\<lambda>c. c_label c = ''Education'') CATEGORIES) = Some ''education''"
  "map_option c_id (find (\<lambda>c. c_label c = ''Miscellaneous'') CATEGORIES) = Some ''miscellaneous''"
  "map_option c_id (find (\<lambda>c. c_label c = ''City Employee Pensions'') CATEGORIES)
     = Some ''pensions''"
  by (simp_all add: CATEGORIES_def)

lemma find_ids:
  "map_option c_label (find (\<lambda>c. c_id c = ''miscellaneous'') CATEGORIES)
     = Some ''Miscellaneous''"
  "map_option c_children (find (\<lambda>c. c_id c = ''pensions'') CATEGORIES)
     = Some (Some [\<lparr>sc_label = ''Salary and wages'', sc_weight = 10233.669\<rparr>,
                   \<lparr>sc_label = ''Other fringe benefits'', sc_weight = 40.257\<rparr>,
                   \<lparr>sc_label = ''Other than personal service'', sc_weight = 2.157\<rparr>])"
  by (simp_all add: CATEGORIES_def)

lemma parseIncome_50000: "parseIncome ''50,000'' = 50000"
  by (simp add: parseIncome_def isDigit_def digitValue_def)

lemma click_category:
  assumes "categoryRingShown s"
    and "map_option c_id (find (\<lambda>c. c_label c = label) CATEGORIES) = Some cid"
  shows "step s (ClickCategoryItem label)
     = s\<lparr>selectedCategoryId := Some cid, selectedSubcategoryLabel := None,
           unlockedLevel := max (unlockedLevel s) 3\<rparr>"
proof -
  from assms(2) obtain c where c: "find (\<lambda>c. c_label c = label) CATEGORIES = Some c" "c_id c = cid"
    by auto
  have "find (\<lambda>x. c_label (a_item x) = label) (categoryAlloc (stateTax s))
      = Some \<lparr>a_item = c, a_norm = c_weight c / 100, dollars = stateTax s * (c_weight c / 100)\<rparr>"
    using find_categoryAlloc [of "\<lambda>c. c_label c = label" "stateTax s"] c(1) by simp
  with assms(1) c(2) show ?thesis
    by (simp add: step_def categoryEffect_def unlockTo_def)
qed

lemma session_income:
  "run [ClickIncomeCard, ChangeIncome ''50,000'']
     = \<lparr>income = 50000, unlockedLevel = 2, selectedCategoryId = None,
         selectedSubcategoryLabel = None, showMethodology = False\<rparr>"
  by (simp add: run_def step_def categoryEffect_def initialState_def unlockTo_def
      parseIncome_50000)

lemma session_education:
  "run [ClickIncomeCard, ChangeIncome ''50,000'', ClickCategoryItem ''Education'']
     = \<lparr>income = 50000, unlockedLevel = 3, selectedCategoryId = Some ''education'',
         selectedSubcategoryLabel = None, showMethodology = False\<rparr>"
proof -
  have "run [ClickIncomeCard, ChangeIncome ''50,000'', ClickCategoryItem ''Education'']
      = step (run [ClickIncomeCard, ChangeIncome ''50,000'']) (ClickCategoryItem ''Education'')"
    by (simp add: run_def)
  also have "\<dots> = \<lparr>income = 50000, unlockedLevel = 3, selectedCategoryId = Some ''education'',
         selectedSubcategoryLabel = None, showMethodology = False\<rparr>"
    unfolding session_income
    by (subst click_category [OF _ find_label_ids(1)])
       (simp_all add: categoryRingShown_def hasIncome_def)
  finally show ?thesis .
qed

text \<open>
  Claim C6, as the code has it. In every state the page reaches, the level is at most 3
  and no action lowers it except the three breadcrumbs Income, Tax and Allocation. The
  Income breadcrumb is the full reset: level 0, no category, no subcategory. The Tax and
  Allocation breadcrumbs set the level to exactly 1 and 2 once it has reached that much,
  which lowers a higher level.
\<close>

theorem C6_unlockedLevel_changes:
  "(a \<notin> {ClickCrumbIncome, ClickCrumbTax, ClickCrumbAllocation} \<longrightarrow>
      unlockedLevel (run acts) \<le> unlockedLevel (run (acts @ [a])))
   \<and> unlockedLevel (run (acts @ [ClickCrumbIncome])) = 0
   \<and> selectedCategoryId (run (acts @ [ClickCrumbIncome])) = None
   \<and> selectedSubcategoryLabel (run (acts @ [ClickCrumbIncome])) = None
   \<and> unlockedLevel (run (acts @ [ClickCrumbTax])) = min 1 (unlockedLevel (run acts))
   \<and> unlockedLevel (run (acts @ [ClickCrumbAllocation])) = min 2 (unlockedLevel (run acts))
   \<and> unlockedLevel (run acts) \<le> 3"
proof -
  have "a \<notin> {ClickCrumbIncome, ClickCrumbTax, ClickCrumbAllocation} \<longrightarrow>
      unlockedLevel (run acts) \<le> unlockedLevel (run (acts @ [a]))"
    using step_level_mono [OF run_level_le3, of a acts] by (simp add: run_snoc)
  moreover have "unlockedLevel (run (acts @ [ClickCrumbTax])) = min 1 (unlockedLevel (run acts))"
    "unlockedLevel (run (acts @ [ClickCrumbAllocation])) = min 2 (unlockedLevel (run acts))"
    by (simp_all add: run_snoc step_crumb_tax step_crumb_allocation min_def)
  ultimately show ?thesis
    using run_level_le3 [of acts] by (simp add: run_snoc step_reset)
qed

theorem C6_unlockedLevel_changes_witness:
  "unlockedLevel (run [ClickIncomeCard, ChangeIncome ''50,000'']) = 2
   \<and> unlockedLevel (run ([ClickIncomeCard, ChangeIncome ''50,000'']
        @ [ClickCategoryItem ''Education''])) = 3
   \<and> unlockedLevel (run [ClickIncomeCard, ChangeIncome ''50,000''])
       \<le> unlockedLevel (run ([ClickIncomeCard, ChangeIncome ''50,000'']
            @ [ClickCategoryItem ''Education'']))
   \<and> unlockedLevel (run ([ClickIncomeCard, ChangeIncome ''50,000''] @ [ClickCrumbIncome])) = 0"
proof -
  have "ClickCategoryItem ''Education''
      \<notin> {ClickCrumbIncome, ClickCrumbTax, ClickCrumbAllocation}"
    by simp
  with C6_unlockedLevel_changes [of "ClickCategoryItem ''Education''"
      "[ClickIncomeCard, ChangeIncome ''50,000'']"]
  have "unlockedLevel (run [ClickIncomeCard, ChangeIncome ''50,000''])
       \<le> unlockedLevel (run ([ClickIncomeCard, ChangeIncome ''50,000'']
            @ [ClickCategoryItem ''Education'']))"
    and "unlockedLevel (run ([ClickIncomeCard, ChangeIncome ''50,000''] @ [ClickCrumbIncome])) = 0"
    by blast+
  moreover have "unlockedLevel (run [ClickIncomeCard, ChangeIncome ''50,000'']) = 2"
    by (simp add: session_income)
  moreover have "unlockedLevel (run ([ClickIncomeCard, ChangeIncome ''50,000'']
        @ [ClickCategoryItem ''Education''])) = 3"
    using session_education by simp
  ultimately show ?thesis by blast
qed

text \<open>
  Where the claim as written fails: after entering an income and drilling into
  Education the level is 3; the Tax breadcrumb, which is not the full reset, takes it
  down to 1.
\<close>

theorem C6_counterexample:
  "unlockedLevel (run [ClickIncomeCard, ChangeIncome ''50,000'',
       ClickCategoryItem ''Education'']) = 3
   \<and> unlockedLevel (run ([ClickIncomeCard, ChangeIncome ''50,000'',
       ClickCategoryItem ''Education''] @ [ClickCrumbTax])) = 1"
  by (simp only: run_snoc session_education step_crumb_tax) simp

subsection \<open>Category switches and stale subcategory labels\<close>

lemma handle_category_change:
  "selectedCategoryId (handle s a) \<noteq> selectedCategoryId s \<Longrightarrow>
     selectedSubcategoryLabel (handle s a) = None"
  by (cases a) (auto simp add: unlockTo_def split: option.splits if_splits)

lemma step_category_change:
  "selectedCategoryId (step s a) \<noteq> selectedCategoryId s \<Longrightarrow>
     selectedSubcategoryLabel (step s a) = None"
  by (simp add: step_def categoryEffect_def split: if_splits)

lemma selectedSubcategory_no_label [simp]: "selectedSubcategory subcats None = None"
  by (simp add: selectedSubcategory_def)

lemma selectedSubcategory_stale:
  assumes "\<forall>scs. subcats = Some scs \<longrightarrow> lbl \<notin> set (map (sc_label \<circ> a_item) scs)"
  shows "selectedSubcategory subcats (Some lbl) = None"
  using assms
  by (auto simp add: selectedSubcategory_def find_None_iff split: option.splits)

lemma selectedSubcategory_sound:
  assumes "selectedSubcategory subcats lblOpt = Some sc"
  shows "\<exists>scs. subcats = Some scs \<and> sc \<in> set scs \<and> lblOpt = Some (sc_label (a_item sc))"
  using assms
  by (auto simp add: selectedSubcategory_def find_Some_iff split: option.splits if_splits)

text \<open>
  Claim C7. Whenever an action changes the selected category, the selected subcategory
  label is \<open>null\<close> afterwards, and so is the selected subcategory the page derives,
  whatever labels the new category has; already the event handlers clear it, before the
  effect on \<open>selectedCategoryId\<close> runs. A selected label that no current subcategory
  carries resolves to no subcategory, and a subcategory that is resolved is one of the
  current subcategories and carries the selected label.
\<close>

theorem C7_category_switch_clears_subcategory:
  "(selectedCategoryId (step s a) \<noteq> selectedCategoryId s \<longrightarrow>
      selectedSubcategoryLabel (step s a) = None \<and> stateSelectedSubcategory (step s a) = None)
   \<and> (selectedCategoryId (handle s a) \<noteq> selectedCategoryId s \<longrightarrow>
      selectedSubcategoryLabel (handle s a) = None)
   \<and> ((\<forall>scs. subcats = Some scs \<longrightarrow> lbl \<notin> set (map (sc_label \<circ> a_item) scs)) \<longrightarrow>
      selectedSubcategory subcats (Some lbl) = None)
   \<and> (selectedSubcategory subcats lblOpt = Some sc \<longrightarrow>
      (\<exists>scs. subcats = Some scs \<and> sc \<in> set scs \<and> lblOpt = Some (sc_label (a_item sc))))"
proof -
  have "selectedSubcategoryLabel (step s a) = None \<and> stateSelectedSubcategory (step s a) = None"
    if "selectedCategoryId (step s a) \<noteq> selectedCategoryId s"
  proof -
    from that have "selectedSubcategoryLabel (step s a) = None"
      by (rule step_category_change)
    then show ?thesis by (simp add: stateSelectedSubcategory_def)
  qed
  then show ?thesis
    using handle_category_change [of s a] selectedSubcategory_stale [of subcats lbl]
      selectedSubcategory_sound [of subcats lblOpt sc]
    by blast
qed

text \<open>
  A session: income 50,000, drill into Miscellaneous, select its subcategory
  \<open>Other than personal service\<close>, go back with the Allocation breadcrumb, drill into
  City Employee Pensions. Pensions has a subcategory of the same name; none is selected.
\<close>

lemma selectedCategory_by_id:
  "selectedCategory t (Some cid) =
     map_option (\<lambda>c. \<lparr>a_item = c, a_norm = c_weight c / 100, dollars = t * (c_weight c / 100)\<rparr>)
       (find (\<lambda>c. c_id c = cid) CATEGORIES)"
  unfolding selectedCategory_def
  using find_categoryAlloc [of "\<lambda>c. c_id c = cid" t] by simp

lemma session_miscellaneous:
  "run [ClickIncomeCard, ChangeIncome ''50,000'', ClickCategoryItem ''Miscellaneous'']
     = \<lparr>income = 50000, unlockedLevel = 3, selectedCategoryId = Some ''miscellaneous'',
         selectedSubcategoryLabel = None, showMethodology = False\<rparr>"
proof -
  have "run [ClickIncomeCard, ChangeIncome ''50,000'', ClickCategoryItem ''Miscellaneous'']
      = step (run [ClickIncomeCard, ChangeIncome ''50,000''])
          (ClickCategoryItem ''Miscellaneous'')"
    by (simp add: run_def)
  also have "\<dots> = \<lparr>income = 50000, unlockedLevel = 3,
         selectedCategoryId = Some ''miscellaneous'',
         selectedSubcategoryLabel = None, showMethodology = False\<rparr>"
    unfolding session_income
    by (subst click_category [OF _ find_label_ids(2)])
       (simp_all add: categoryRingShown_def hasIncome_def)
  finally show ?thesis .
qed

lemma session_subcategory:
  "run [ClickIncomeCard, ChangeIncome ''50,000'', ClickCategoryItem ''Miscellaneous'',
        ClickSubcategoryItem ''Other than personal service'']
     = \<lparr>income = 50000, unlockedLevel = 3, selectedCategoryId = Some ''miscellaneous'',
         selectedSubcategoryLabel = Some ''Other than personal service'',
         showMethodology = False\<rparr>"
proof -
  let ?s = "\<lparr>income = 50000, unlockedLevel = 3, selectedCategoryId = Some ''miscellaneous'',
         selectedSubcategoryLabel = None, showMethodology = False\<rparr>"
  have "stateSelectedCategory ?s \<noteq> None"
    using find_ids(1) by (auto simp add: stateSelectedCategory_def selectedCategory_by_id)
  then have shown: "subcatRingShown ?s"
    by (simp add: subcatRingShown_def hasIncome_def)
  have "run [ClickIncomeCard, ChangeIncome ''50,000'', ClickCategoryItem ''Miscellaneous'',
        ClickSubcategoryItem ''Other than personal service'']
      = step (run [ClickIncomeCard, ChangeIncome ''50,000'', ClickCategoryItem ''Miscellaneous''])
          (ClickSubcategoryItem ''Other than personal service'')"
    by (simp add: run_def)
  also have "\<dots> = \<lparr>income = 50000, unlockedLevel = 3,
         selectedCategoryId = Some ''miscellaneous'',
         selectedSubcategoryLabel = Some ''Other than personal service'',
         showMethodology = False\<rparr>"
    unfolding session_miscellaneous using shown
    by (simp add: step_def categoryEffect_def)
  finally show ?thesis .
qed

lemma session_back:
  "run [ClickIncomeCard, ChangeIncome ''50,000'', ClickCategoryItem ''Miscellaneous'',
        ClickSubcategoryItem ''Other than personal service'', ClickCrumbAllocation]
     = \<lparr>income = 50000, unlockedLevel = 2, selectedCategoryId = None,
         selectedSubcategoryLabel = None, showMethodology = False\<rparr>"
proof -
  have "run [ClickIncomeCard, ChangeIncome ''50,000'', ClickCategoryItem ''Miscellaneous'',
        ClickSubcategoryItem ''Other than personal service'', ClickCrumbAllocation]
      = step (run [ClickIncomeCard, ChangeIncome ''50,000'', ClickCategoryItem ''Miscellaneous'',
        ClickSubcategoryItem ''Other than personal service'']) ClickCrumbAllocation"
    by (simp add: run_def)
  then show ?thesis
    by (simp only: session_subcategory step_crumb_allocation) simp
qed

lemma session_pensions:
  "step \<lparr>income = 50000, unlockedLevel = 2, selectedCategoryId = None,
         selectedSubcategoryLabel = None, showMethodology = False\<rparr>
        (ClickCategoryItem ''City Employee Pensions'')
     = \<lparr>income = 50000, unlockedLevel = 3, selectedCategoryId = Some ''pensions'',
         selectedSubcategoryLabel = None, showMethodology = False\<rparr>"
  by (subst click_category [OF _ find_label_ids(3)])
     (simp_all add: categoryRingShown_def hasIncome_def)

lemma pensions_subcats:
  "\<exists>scs. stateSelectedSubcats \<lparr>income = 50000, unlockedLevel = 3,
           selectedCategoryId = Some ''pensions'',
           selectedSubcategoryLabel = None, showMethodology = False\<rparr> = Some scs
     \<and> ''Other than personal service'' \<in> set (map (sc_label \<circ> a_item) scs)"
proof -
  from find_ids(2) obtain c where
    c: "find (\<lambda>c. c_id c = ''pensions'') CATEGORIES = Some c"
       "c_children c = Some [\<lparr>sc_label = ''Salary and wages'', sc_weight = 10233.669\<rparr>,
                   \<lparr>sc_label = ''Other fringe benefits'', sc_weight = 40.257\<rparr>,
                   \<lparr>sc_label = ''Other than personal service'', sc_weight = 2.157\<rparr>]"
    by auto
  show ?thesis
    by (simp add: stateSelectedSubcats_def stateSelectedCategory_def selectedCategory_by_id c
        selectedSubcats_def normalizeWeights_items Let_def)
qed

theorem C7_category_switch_clears_subcategory_witness:
  "selectedSubcategoryLabel (run [ClickIncomeCard, ChangeIncome ''50,000'',
       ClickCategoryItem ''Miscellaneous'',
       ClickSubcategoryItem ''Other than personal service''])
     = Some ''Other than personal service''
   \<and> selectedCategoryId (run [ClickIncomeCard, ChangeIncome ''50,000'',
       ClickCategoryItem ''Miscellaneous'',
       ClickSubcategoryItem ''Other than personal service'', ClickCrumbAllocation,
       ClickCategoryItem ''City Employee Pensions'']) = Some ''pensions''
   \<and> selectedSubcategoryLabel (run [ClickIncomeCard, ChangeIncome ''50,000'',
       ClickCategoryItem ''Miscellaneous'',
       ClickSubcategoryItem ''Other than personal service'', ClickCrumbAllocation,
       ClickCategoryItem ''City Employee Pensions'']) = None
   \<and> stateSelectedSubcategory (run [ClickIncomeCard, ChangeIncome ''50,000'',
       ClickCategoryItem ''Miscellaneous'',
       ClickSubcategoryItem ''Other than personal service'', ClickCrumbAllocation,
       ClickCategoryItem ''City Employee Pensions'']) = None
   \<and> (\<exists>scs. stateSelectedSubcats (run [ClickIncomeCard, ChangeIncome ''50,000'',
       ClickCategoryItem ''Miscellaneous'',
       ClickSubcategoryItem ''Other than personal service'', ClickCrumbAllocation,
       ClickCategoryItem ''City Employee Pensions'']) = Some scs
        \<and> ''Other than personal service'' \<in> set (map (sc_label \<circ> a_item) scs))
   \<and> selectedSubcategory
        (Some [\<lparr>a_item = \<lparr>sc_label = ''State'', sc_weight = 1\<rparr>, a_norm = 1, dollars = 5\<rparr>])
        (Some ''City funds'') = None
   \<and> selectedSubcategory
        (Some [\<lparr>a_item = \<lparr>sc_label = ''State'', sc_weight = 1\<rparr>, a_norm = 1, dollars = 5\<rparr>])
        (Some ''State'')
       = Some \<lparr>a_item = \<lparr>sc_label = ''State'', sc_weight = 1\<rparr>, a_norm = 1, dollars = 5\<rparr>"
proof -
  let ?sc = "\<lparr>a_item = \<lparr>sc_label = ''State'', sc_weight = 1\<rparr>, a_norm = 1, dollars = 5\<rparr>"
  have "\<forall>scs. Some [?sc] = Some scs \<longrightarrow> ''City funds'' \<notin> set (map (sc_label \<circ> a_item) scs)"
    by simp
  with C7_category_switch_clears_subcategory [of _ _ "Some [?sc]" "''City funds''"]
  have stale: "selectedSubcategory (Some [?sc]) (Some ''City funds'') = None"
    by blast
  have found: "selectedSubcategory (Some [?sc]) (Some ''State'') = Some ?sc"
    by (simp add: selectedSubcategory_def)
  with C7_category_switch_clears_subcategory [of _ _ "Some [?sc]" _ "Some ''State''" ?sc]
  have "\<exists>scs. Some [?sc] = Some scs \<and> ?sc \<in> set scs
          \<and> Some ''State'' = Some (sc_label (a_item ?sc))"
    by blast
  let ?before = "\<lparr>income = 50000, unlockedLevel = 2, selectedCategoryId = None,
         selectedSubcategoryLabel = None, showMethodology = False\<rparr>"
  let ?after = "\<lparr>income = 50000, unlockedLevel = 3, selectedCategoryId = Some ''pensions'',
         selectedSubcategoryLabel = None, showMethodology = False\<rparr>"
  let ?a = "ClickCategoryItem ''City Employee Pensions''"
  have r: "run [ClickIncomeCard, ChangeIncome ''50,000'',
       ClickCategoryItem ''Miscellaneous'',
       ClickSubcategoryItem ''Other than personal service'', ClickCrumbAllocation,
       ClickCategoryItem ''City Employee Pensions''] = step ?before ?a"
    using run_snoc [of "[ClickIncomeCard, ChangeIncome ''50,000'',
       ClickCategoryItem ''Miscellaneous'',
       ClickSubcategoryItem ''Other than personal service'', ClickCrumbAllocation]" ?a]
    by (simp only: session_back append.simps)
  have changed: "selectedCategoryId (step ?before ?a) \<noteq> selectedCategoryId ?before"
    by (simp add: session_pensions)
  have "selectedCategoryId (handle ?before ?a) \<noteq> selectedCategoryId ?before"
    using changed unfolding step_category .
  with changed C7_category_switch_clears_subcategory [of ?before ?a]
  have "selectedSubcategoryLabel (step ?before ?a) = None"
    and "stateSelectedSubcategory (step ?before ?a) = None"
    and "selectedSubcategoryLabel (handle ?before ?a) = None"
    by blast+
  moreover have "selectedCategoryId (step ?before ?a) = Some ''pensions''"
    by (simp add: session_pensions)
  moreover have "\<exists>scs. stateSelectedSubcats (step ?before ?a) = Some scs
        \<and> ''Other than personal service'' \<in> set (map (sc_label \<circ> a_item) scs)"
    using pensions_subcats by (simp only: session_pensions)
  ultimately show ?thesis
    unfolding r using stale found by (simp add: session_subcategory)
qed

section \<open>The rings of the page\<close>

lemma map_enumerate_snd: "map (\<lambda>(i, c). g c) (enumerate n xs) = map g xs"
  by (induction xs arbitrary: n) simp_all

lemma categoryDonutItems_values:
  "map ri_value (categoryDonutItems alloc) = map dollars alloc"
proof -
  have "map ri_value (categoryDonutItems alloc)
      = map (\<lambda>(i, c). dollars c) (enumerate 0 alloc)"
    by (simp add: categoryDonutItems_def split_def)
  then show ?thesis by (simp only: map_enumerate_snd)
qed

lemma sweepAngles_total:
  assumes "\<forall>it \<in> set items. 0 \<le> ri_value it"
  shows "sum_list (sweepAngles mc ms items sz th sa) = valueSum items / max 1 (valueSum items) * 360"
proof -
  have vs: "map (\<lambda>b. max 0 (ri_value b)) items = map ri_value items"
    using assms by simp
  show ?thesis
    by (simp add: sweepAngles_def donutTrace_unfold sliceWalk_angles sum_sweeps vs valueSum_def)
qed

text \<open>
  A ring whose values sum to less than 1 is one the page draws: an income of 8001 owes a
  tax of 0.03078, the category ring's values are non-negative and sum to that tax, and
  its sweeps sum to 11.0808 degrees, not 360.
\<close>

lemma category_ring_income_8001:
  "nycTax (pageTax 8001) = 0.03078
   \<and> (\<forall>it \<in> set (categoryDonutItems (categoryAlloc (nycTax (pageTax 8001)))). 0 \<le> ri_value it)
   \<and> valueSum (categoryDonutItems (categoryAlloc (nycTax (pageTax 8001)))) = 0.03078
   \<and> sum_list (sweepAngles cos sin (categoryDonutItems (categoryAlloc (nycTax (pageTax 8001))))
        360 26 None) = 11.0808"
proof -
  let ?items = "categoryDonutItems (categoryAlloc (nycTax (pageTax 8001)))"
  have t: "nycTax (pageTax 8001) = 0.03078"
    by (simp add: pageTax_low)
  have "\<forall>c \<in> set CATEGORIES. 0 \<le> c_weight c"
    by (simp add: CATEGORIES_def)
  then have "\<forall>v \<in> set (map dollars (categoryAlloc 0.03078)). 0 \<le> v"
    by (simp add: categoryAlloc_map)
  then have nn: "\<forall>it \<in> set ?items. 0 \<le> ri_value it"
    unfolding t categoryDonutItems_values [symmetric] by simp
  have S: "valueSum ?items = 0.03078"
    by (simp add: valueSum_def categoryDonutItems_values categoryAlloc_total t)
  from sweepAngles_total [OF nn, of cos sin 360 26 None] S
  have "sum_list (sweepAngles cos sin ?items 360 26 None) = 11.0808" by simp
  with t nn S show ?thesis by blast
qed

end
